theory Spec2Isabelle
  imports Complex_Main "HOL-Library.Sublist" "HOL-Library.Multiset"
begin

chapter \<open>The model\<close>

section \<open>Shared vocabulary\<close>

text \<open>
  The Python exceptions that the modelled functions can raise.  A function that may raise
  returns \<open>py_error + 'a\<close>, with \<open>Inl\<close> the exception.
\<close>

datatype py_error = TypeError | KeyError | IndexError | AttributeError | RecursionError

text \<open>
  Python's \<open>needle in hay\<close> on two strings: \<open>needle\<close> occurs in \<open>hay\<close> as a contiguous
  run of characters.
\<close>

fun str_in :: "'a list \<Rightarrow> 'a list \<Rightarrow> bool" where
  "str_in needle [] = (needle = [])"
| "str_in needle (c # cs) = (prefix needle (c # cs) \<or> str_in needle cs)"

section \<open>The LLM client (env\_synthesis/src/utils/api\_client.py)\<close>

definition API_RETRY_SLEEP_TIME :: nat where
  "API_RETRY_SLEEP_TIME = 5"

definition API_MAX_RETRY_TIMES :: nat where
  "API_MAX_RETRY_TIMES = 10"

text \<open>
  One attempt of \<open>model.chat.completions.create\<close> (with the reassembly of the stream)
  either completes with the message content, which may be null, or raises an exception
  with a message.  The endpoint is external: it is the oracle \<open>api\<close>, which gives the
  outcome of the attempt number \<open>n\<close> (counted from 0).
\<close>

datatype api_outcome = Completed "string option" | Raised string

text \<open>
  What a call of the client leaves behind: the \<open>response\<close> field of the returned
  payload, the number of attempts made, and the seconds spent in \<open>time.sleep\<close>.
\<close>

record client_run =
  payload :: "string option"
  api_calls :: nat
  slept_seconds :: nat

definition context_overflow :: "string \<Rightarrow> bool" where
  "context_overflow e =
     str_in (''is longer than the model'' @ [CHR 0x27] @ ''s context length (51200 tokens)'') e"

text \<open>
  The \<open>while True\<close> loop of \<open>get_openai_model_ans\<close>.  One unit of fuel is one iteration
  of the loop; \<open>None\<close> is a loop that has not returned within the fuel.  As in the source,
  \<open>cur_retry = 0\<close> is the first statement of the loop body, so every iteration starts
  counting again.
\<close>

fun get_openai_model_ans :: "nat \<Rightarrow> (nat \<Rightarrow> api_outcome) \<Rightarrow> nat \<Rightarrow> nat \<Rightarrow> client_run option" where
  "get_openai_model_ans 0 api n slept = None"
| "get_openai_model_ans (Suc fuel) api n slept =
     (let retry_times = API_MAX_RETRY_TIMES;
          sleep_time = API_RETRY_SLEEP_TIME;
          cur_retry = (0::nat)
      in case api n of
           Completed r \<Rightarrow> Some \<lparr>payload = r, api_calls = Suc n, slept_seconds = slept\<rparr>
         | Raised e \<Rightarrow>
             (let cur_retry = cur_retry + 1
              in if cur_retry > retry_times
                 then Some \<lparr>payload = None, api_calls = Suc n, slept_seconds = slept\<rparr>
                 else if context_overflow e
                 then Some \<lparr>payload = None, api_calls = Suc n, slept_seconds = slept\<rparr>
                 else get_openai_model_ans fuel api (Suc n) (slept + sleep_time)))"

section \<open>Decoded values and strings\<close>

text \<open>
  A value as \<open>json.loads\<close> gives it.  \<open>JNull\<close> is Python's \<open>None\<close>.  A dict is an
  association list; \<open>map_of\<close> reads it.
\<close>

datatype json =
    JNull
  | JBool bool
  | JNum int
  | JStr string
  | JList "json list"
  | JDict "(string \<times> json) list"

text \<open>Sequencing of steps that may raise: the first exception ends the computation.\<close>

definition err_bind :: "py_error + 'a \<Rightarrow> ('a \<Rightarrow> py_error + 'b) \<Rightarrow> py_error + 'b" where
  "err_bind m f = (case m of Inl e \<Rightarrow> Inl e | Inr v \<Rightarrow> f v)"

text \<open>
  \<open>key in v\<close> for a string \<open>key\<close>: a key of a dict, an element of a list, a substring of
  a string; \<open>None\<close>, a bool and a number are not iterable and raise TypeError.
\<close>

fun py_contains :: "string \<Rightarrow> json \<Rightarrow> py_error + bool" where
  "py_contains key (JDict kvs) = Inr (key \<in> set (map fst kvs))"
| "py_contains key (JList vs) = Inr (JStr key \<in> set vs)"
| "py_contains key (JStr s) = Inr (str_in key s)"
| "py_contains key JNull = Inl TypeError"
| "py_contains key (JBool b) = Inl TypeError"
| "py_contains key (JNum n) = Inl TypeError"

text \<open>
  \<open>v[key]\<close> for a string \<open>key\<close>: the value of a dict (KeyError without the key); a list
  and a string take integer indices only, and the other values are not subscriptable:
  TypeError.
\<close>

fun py_getitem :: "json \<Rightarrow> string \<Rightarrow> py_error + json" where
  "py_getitem (JDict kvs) key = (case map_of kvs key of None \<Rightarrow> Inl KeyError | Some v \<Rightarrow> Inr v)"
| "py_getitem v key = Inl TypeError"

text \<open>
  \<open>str.strip()\<close>, \<open>str.split(sep)\<close> for a non-empty separator, read on strings of
  ASCII characters: the white space is the characters 9 to 13, 28 to 32.
\<close>

definition is_space :: "char \<Rightarrow> bool" where
  "is_space c = (c \<in> set [CHR 0x09, CHR 0x0A, CHR 0x0B, CHR 0x0C, CHR 0x0D,
                            CHR 0x1C, CHR 0x1D, CHR 0x1E, CHR 0x1F, CHR 0x20])"

definition strip :: "string \<Rightarrow> string" where
  "strip s = rev (dropWhile is_space (rev (dropWhile is_space s)))"

fun split_acc :: "string \<Rightarrow> string \<Rightarrow> string \<Rightarrow> string list" where
  "split_acc sep cur [] = [rev cur]"
| "split_acc sep cur (c # cs) =
     (if prefix sep (c # cs) then rev cur # split_acc sep [] (drop (length sep - 1) cs)
      else split_acc sep (c # cur) cs)"

definition py_split :: "string \<Rightarrow> string \<Rightarrow> string list" where
  "py_split sep s = split_acc sep [] s"

section \<open>The tool synthesizer (env\_synthesis/src/step\_04\_env\_synthesis.py)\<close>

definition ENV_SYNTHESIS_INNER_MAX_RETRY_TIMES :: nat where
  "ENV_SYNTHESIS_INNER_MAX_RETRY_TIMES = 5"

definition ENV_SYNTHESIS_OUTER_MAX_RETRY_TIMES :: nat where
  "ENV_SYNTHESIS_OUTER_MAX_RETRY_TIMES = 15"

text \<open>
  The question and answer pair handed to the synthesizer (\<open>q_a_pairs\<close>), the reply of the
  sandbox (\<open>status\<close> and \<open>run_result.stdout\<close>), and the prompts of the four stages, each
  with the values its template is filled with.
\<close>

record q_a_pairs =
  question :: string
  answer :: string
  uuid :: string
  hop_level :: int

record sandbox_reply =
  status :: string
  stdout :: string

datatype prompt =
    PROMPT_TOOL_DOCUMENT_GENERATION string
  | PROMPT_TOOL_DOCUMENT_COMPLEXITY_SCALING json
  | PROMPT_CALL_STATEMENT string json
  | PROMPT_TOOL_DEPLOYMENT json q_a_pairs json

text \<open>
  What is outside the program.  \<open>decode\<close> is \<open>json.loads\<close> with \<open>ast.literal_eval\<close> as
  its fallback (\<open>None\<close> when both fail); \<open>py_str\<close> is Python's \<open>str()\<close> of a value
  that is not a string, as an f-string prints it.  \<open>llm n p\<close> is the \<open>response\<close> field
  that \<open>get_openai_model_ans\<close> returns for the prompt \<open>p\<close> when \<open>n\<close> calls went before
  (null when the client gave up); \<open>sandbox n code\<close> is the reply of the sandbox to the
  posted \<open>code\<close> when \<open>n\<close> posts went before, or the exception of \<open>requests.post\<close>.
\<close>

record outside =
  decode :: "string \<Rightarrow> json option"
  py_str :: "json \<Rightarrow> string"
  llm :: "nat \<Rightarrow> prompt \<Rightarrow> string option"
  sandbox :: "nat \<Rightarrow> json \<Rightarrow> py_error + sandbox_reply"

text \<open>
  The effects of a run, each in order: the prompts sent to the model, the codes posted to
  the sandbox, and of the log the lines that announce a stage (\<open>TMP_DEBUG\<close> is \<open>True\<close>).
\<close>

datatype log_line =
    Step_1_Tool_Document_Generation
  | Step_2_Tool_Document_Complexity_Scaling
  | Step_3_Call_Statement_Generation
  | Step_4_Tool_Deployment

record world =
  prompts :: "prompt list"
  posts :: "json list"
  logged :: "log_line list"

definition logger_info :: "log_line \<Rightarrow> world \<Rightarrow> world" where
  "logger_info line w = w\<lparr>logged := logged w @ [line]\<rparr>"

definition ask_llm :: "outside \<Rightarrow> prompt \<Rightarrow> world \<Rightarrow> string option \<times> world" where
  "ask_llm E p w = (llm E (length (prompts w)) p, w\<lparr>prompts := prompts w @ [p]\<rparr>)"

definition get_code_sandbox_ans :: "outside \<Rightarrow> json \<Rightarrow> world \<Rightarrow> py_error + (sandbox_reply \<times> world)" where
  "get_code_sandbox_ans E code w =
     err_bind (sandbox E (length (posts w)) code) (\<lambda>r. Inr (r, w\<lparr>posts := posts w @ [code]\<rparr>))"

text \<open>
  \<open>parse_ans\<close>.  The argument is the \<open>response\<close> field; when it is null the first test,
  \<open>"</think>" in string\<close>, raises TypeError.  A text that does not decode gives \<open>None\<close>.
\<close>

definition parse_ans :: "outside \<Rightarrow> string option \<Rightarrow> py_error + json" where
  "parse_ans E resp =
     (case resp of
        None \<Rightarrow> Inl TypeError
      | Some string \<Rightarrow>
          err_bind
            (if str_in ''</think>'' string
             then (case py_split ''</think>'' string of
                     _ # seg # _ \<Rightarrow> Inr (strip seg)
                   | _ \<Rightarrow> Inl IndexError)
             else Inr string)
            (\<lambda>s1.
               let s2 = (if prefix ''```json'' s1 then strip (drop (length ''```json'') s1) else s1);
                   s3 = (if prefix ''```'' s2 then strip (drop (length ''```'') s2) else s2);
                   s4 = (if suffix ''```'' s3 then strip (take (length s3 - length ''```'') s3) else s3)
               in Inr (case decode E s4 of Some v \<Rightarrow> v | None \<Rightarrow> JNull)))"

text \<open>\<open>key in output_parsed and "analysis" in output_parsed\<close>, left to right.\<close>

definition has_keys :: "string \<Rightarrow> json \<Rightarrow> py_error + bool" where
  "has_keys key v =
     err_bind (py_contains key v) (\<lambda>a. if a then py_contains ''analysis'' v else Inr False)"

record stage_result =
  content :: json
  analysis :: json

text \<open>
  Stages 1 to 3 (\<open>_tool_document_generation\<close>, \<open>_tool_document_complexity_scaling\<close>,
  \<open>_call_statement_generation\<close>) are the same function but for the line they log first,
  the prompt, and the key that the decoded reply must hold (\<open>tool\<close>, \<open>refined_version\<close>,
  \<open>call\<close>).  The loop is
  \<open>while output_parsed is None and try_times < ENV_SYNTHESIS_INNER_MAX_RETRY_TIMES\<close>.
\<close>

function llm_stage_loop ::
  "outside \<Rightarrow> prompt \<Rightarrow> string \<Rightarrow> nat \<Rightarrow> world \<Rightarrow> py_error + (json option \<times> world)" where
  "llm_stage_loop E p key try_times w =
     (if try_times < ENV_SYNTHESIS_INNER_MAX_RETRY_TIMES then
        (case ask_llm E p w of (output, w1) \<Rightarrow>
           err_bind (parse_ans E output) (\<lambda>output_parsed.
           err_bind (has_keys key output_parsed) (\<lambda>ok.
             if ok then Inr (Some output_parsed, w1)
             else llm_stage_loop E p key (try_times + 1) w1)))
      else Inr (None, w))"
  by pat_completeness auto
termination
  by (relation "measure (\<lambda>(E, p, key, try_times, w). ENV_SYNTHESIS_INNER_MAX_RETRY_TIMES - try_times)")
    auto

declare llm_stage_loop.simps [simp del]

definition llm_stage ::
  "outside \<Rightarrow> log_line \<Rightarrow> prompt \<Rightarrow> string \<Rightarrow> world \<Rightarrow> py_error + (stage_result option \<times> world)" where
  "llm_stage E line p key w =
     err_bind (llm_stage_loop E p key 0 (logger_info line w)) (\<lambda>(output_parsed, w1).
       case output_parsed of
         None \<Rightarrow> Inr (None, w1)
       | Some v \<Rightarrow>
           err_bind (py_getitem v key) (\<lambda>c.
           err_bind (py_getitem v ''analysis'') (\<lambda>a.
             Inr (Some \<lparr>content = c, analysis = a\<rparr>, w1))))"

definition tool_document_generation ::
  "outside \<Rightarrow> string \<Rightarrow> world \<Rightarrow> py_error + (stage_result option \<times> world)" where
  "tool_document_generation E q w =
     llm_stage E Step_1_Tool_Document_Generation (PROMPT_TOOL_DOCUMENT_GENERATION q) ''tool'' w"

definition tool_document_complexity_scaling ::
  "outside \<Rightarrow> json \<Rightarrow> world \<Rightarrow> py_error + (stage_result option \<times> world)" where
  "tool_document_complexity_scaling E tool_document w =
     llm_stage E Step_2_Tool_Document_Complexity_Scaling
       (PROMPT_TOOL_DOCUMENT_COMPLEXITY_SCALING tool_document) ''refined_version'' w"

definition call_statement_generation ::
  "outside \<Rightarrow> string \<Rightarrow> json \<Rightarrow> world \<Rightarrow> py_error + (stage_result option \<times> world)" where
  "call_statement_generation E q tool_description w =
     llm_stage E Step_3_Call_Statement_Generation
       (PROMPT_CALL_STATEMENT q tool_description) ''call'' w"

text \<open>
  Stage 4, \<open>_tool_deployment\<close>: the only stage that tests \<open>output_parsed is None\<close> before
  it looks for keys in it.  The code of the reply is posted to the sandbox, and a reply
  with status \<open>Failed\<close> is a failed attempt.
\<close>

function tool_deployment_loop ::
  "outside \<Rightarrow> prompt \<Rightarrow> nat \<Rightarrow> world \<Rightarrow> py_error + (json option \<times> world)" where
  "tool_deployment_loop E p try_times w =
     (if try_times < ENV_SYNTHESIS_INNER_MAX_RETRY_TIMES then
        (case ask_llm E p w of (output, w1) \<Rightarrow>
           err_bind (parse_ans E output) (\<lambda>output_parsed.
             if output_parsed = JNull then tool_deployment_loop E p (try_times + 1) w1
             else
               err_bind (has_keys ''function'' output_parsed) (\<lambda>ok.
                 if \<not> ok then tool_deployment_loop E p (try_times + 1) w1
                 else
                   err_bind (py_getitem output_parsed ''function'') (\<lambda>cur_code.
                   err_bind (get_code_sandbox_ans E cur_code w1) (\<lambda>(code_ans, w2).
                     if status code_ans = ''Failed''
                     then tool_deployment_loop E p (try_times + 1) w2
                     else Inr (Some output_parsed, w2))))))
      else Inr (None, w))"
  by pat_completeness auto
termination
  by (relation "measure (\<lambda>(E, p, try_times, w). ENV_SYNTHESIS_INNER_MAX_RETRY_TIMES - try_times)")
    auto

declare tool_deployment_loop.simps [simp del]

definition tool_deployment ::
  "outside \<Rightarrow> json \<Rightarrow> q_a_pairs \<Rightarrow> json \<Rightarrow> world \<Rightarrow> py_error + (stage_result option \<times> world)" where
  "tool_deployment E tool_document qa call_statement w =
     err_bind (tool_deployment_loop E (PROMPT_TOOL_DEPLOYMENT tool_document qa call_statement) 0
                (logger_info Step_4_Tool_Deployment w))
       (\<lambda>(output_parsed, w1).
          case output_parsed of
            None \<Rightarrow> Inr (None, w1)
          | Some v \<Rightarrow>
              err_bind (py_getitem v ''function'') (\<lambda>c.
              err_bind (py_getitem v ''analysis'') (\<lambda>a.
                Inr (Some \<lparr>content = c, analysis = a\<rparr>, w1))))"

text \<open>
  The \<open>data\<close> and \<open>extra_info\<close> of a synthesized tool.  A field that Python leaves
  \<open>None\<close> is \<open>JNull\<close> (for \<open>tool_call_ans\<close>, the stdout of the sandbox: \<open>None\<close>).
\<close>

record env_data =
  tool_document :: json
  tool_call_statement :: json
  code :: json
  tool_call_ans :: "string option"

record stage_results =
  tool_document_generation_result :: "stage_result option"
  tool_document_complexity_scaling_result :: "stage_result option"
  tool_call_statement_result :: "stage_result option"
  tool_deployment_result :: "stage_result option"

record ret_dict =
  data :: env_data
  extra_info :: stage_results

text \<open>An f-string prints a string as it is and any other value through \<open>str()\<close>.\<close>

definition fmt :: "outside \<Rightarrow> json \<Rightarrow> string" where
  "fmt E v = (case v of JStr s \<Rightarrow> s | _ \<Rightarrow> py_str E v)"

definition final_code :: "outside \<Rightarrow> json \<Rightarrow> json \<Rightarrow> string" where
  "final_code E cur_code call_statement =
     fmt E cur_code @ [CHR 0x0A] @ ''print('' @ fmt E call_statement @ '')''"

text \<open>
  The loop of \<open>_single_env_synthesis\<close>, \<open>while try_times < ENV_SYNTHESIS_INNER_MAX_RETRY_TIMES\<close>:
  stage 3, stage 4, then the test of the deployed code against the expected answer.  The
  tool document \<open>doc\<close> is the one of stage 2 and does not change in the loop.
\<close>

function validation_loop ::
  "outside \<Rightarrow> q_a_pairs \<Rightarrow> stage_result \<Rightarrow> stage_result \<Rightarrow> nat \<Rightarrow> world \<Rightarrow> py_error + (ret_dict option \<times> world)" where
  "validation_loop E qa gen scaled try_times w =
     (if try_times < ENV_SYNTHESIS_INNER_MAX_RETRY_TIMES then
        err_bind (call_statement_generation E (question qa) (content scaled) w) (\<lambda>(stmt, w1).
          case stmt of
            None \<Rightarrow> validation_loop E qa gen scaled (try_times + 1) w1
          | Some call_result \<Rightarrow>
              err_bind (tool_deployment E (content scaled) qa (content call_result) w1)
                (\<lambda>(dep, w2).
                   case dep of
                     None \<Rightarrow> validation_loop E qa gen scaled (try_times + 1) w2
                   | Some dep_result \<Rightarrow>
                       (let cur_code = content dep_result;
                            call_statement = content call_result
                        in err_bind (get_code_sandbox_ans E (JStr (final_code E cur_code call_statement)) w2)
                             (\<lambda>(call_ans, w3).
                                if status call_ans = ''Success'' \<and> str_in (answer qa) (stdout call_ans)
                                then Inr (Some
                                  \<lparr>data = \<lparr>tool_document = content scaled,
                                            tool_call_statement = call_statement,
                                            code = cur_code,
                                            tool_call_ans = Some (stdout call_ans)\<rparr>,
                                   extra_info = \<lparr>tool_document_generation_result = Some gen,
                                                 tool_document_complexity_scaling_result = Some scaled,
                                                 tool_call_statement_result = Some call_result,
                                                 tool_deployment_result = Some dep_result\<rparr>\<rparr>, w3)
                                else validation_loop E qa gen scaled (try_times + 1) w3))))
      else Inr (None, w))"
  by pat_completeness auto
termination
  by (relation "measure (\<lambda>(E, qa, gen, scaled, try_times, w). ENV_SYNTHESIS_INNER_MAX_RETRY_TIMES - try_times)")
    auto

declare validation_loop.simps [simp del]

definition single_env_synthesis ::
  "outside \<Rightarrow> q_a_pairs \<Rightarrow> world \<Rightarrow> py_error + (ret_dict option \<times> world)" where
  "single_env_synthesis E qa w =
     err_bind (tool_document_generation E (question qa) w) (\<lambda>(gen, w1).
       case gen of
         None \<Rightarrow> Inr (None, w1)
       | Some gen_result \<Rightarrow>
           err_bind (tool_document_complexity_scaling E (content gen_result) w1)
             (\<lambda>(scaled, w2).
                case scaled of
                  None \<Rightarrow> Inr (None, w2)
                | Some scaled_result \<Rightarrow>
                    validation_loop E qa gen_result scaled_result 0 w2))"

text \<open>
  \<open>synthesis_single_env\<close>: the loop \<open>while try_times < ENV_SYNTHESIS_OUTER_MAX_RETRY_TIMES\<close>
  around the whole of \<open>_single_env_synthesis\<close>.  A result is returned with the keys of
  \<open>q_a_pairs\<close> added (\<open>ans.update(q_a_pairs)\<close>).
\<close>

record synthesized = q_a_pairs +
  ans_data :: env_data
  ans_extra_info :: stage_results

definition ans_update :: "ret_dict \<Rightarrow> q_a_pairs \<Rightarrow> synthesized" where
  "ans_update ans qa =
     \<lparr>question = question qa, answer = answer qa, uuid = uuid qa, hop_level = hop_level qa,
      ans_data = data ans, ans_extra_info = extra_info ans\<rparr>"

function synthesis_single_env_loop ::
  "outside \<Rightarrow> q_a_pairs \<Rightarrow> nat \<Rightarrow> world \<Rightarrow> py_error + (synthesized option \<times> world)" where
  "synthesis_single_env_loop E qa try_times w =
     (if try_times < ENV_SYNTHESIS_OUTER_MAX_RETRY_TIMES then
        err_bind (single_env_synthesis E qa w) (\<lambda>(ans, w1).
          case ans of
            Some r \<Rightarrow> Inr (Some (ans_update r qa), w1)
          | None \<Rightarrow> synthesis_single_env_loop E qa (try_times + 1) w1)
      else Inr (None, w))"
  by pat_completeness auto
termination
  by (relation "measure (\<lambda>(E, qa, try_times, w). ENV_SYNTHESIS_OUTER_MAX_RETRY_TIMES - try_times)")
    auto

declare synthesis_single_env_loop.simps [simp del]

definition synthesis_single_env ::
  "outside \<Rightarrow> q_a_pairs \<Rightarrow> world \<Rightarrow> py_error + (synthesized option \<times> world)" where
  "synthesis_single_env E qa w = synthesis_single_env_loop E qa 0 w"

text \<open>
  An entry of \<open>env_result\<close> as \<open>env_synthesis\<close> stores it for a synthesized tool, and as
  the merge engine reads it: \<open>merge_flag\<close> is \<open>False\<close> while the key is absent.
\<close>

record env_entry =
  entry_question :: string
  entry_answer :: string
  env_synthesis_result :: "ret_dict option"
  merge_flag :: bool

definition env_entry_of :: "synthesized \<Rightarrow> env_entry" where
  "env_entry_of out =
     \<lparr>entry_question = question out, entry_answer = answer out,
      env_synthesis_result = Some \<lparr>data = ans_data out, extra_info = ans_extra_info out\<rparr>,
      merge_flag = False\<rparr>"

text \<open>
  What a run of the synthesizer leaves to observe: the stage lines of its log, and the tool
  documents that its stage 3 prompts carried, in order.
\<close>

definition run_log :: "py_error + ('a \<times> world) \<Rightarrow> log_line list" where
  "run_log res = (case res of Inl e \<Rightarrow> [] | Inr (r, w) \<Rightarrow> logged w)"

fun call_statement_document :: "prompt \<Rightarrow> json option" where
  "call_statement_document (PROMPT_CALL_STATEMENT q d) = Some d"
| "call_statement_document p = None"

definition asked_documents :: "py_error + ('a \<times> world) \<Rightarrow> json list" where
  "asked_documents res =
     (case res of Inl e \<Rightarrow> [] | Inr (r, w) \<Rightarrow> List.map_filter call_statement_document (prompts w))"


section \<open>The cluster merge engine (env\_synthesis/src/step\_05\_merge\_tools.py)\<close>

text \<open>
  \<open>_check_env\<close>.  \<open>check_entry\<close> is the body of its loop for a non-null entry \<open>v\<close>
  under the key \<open>k\<close>: \<open>Inr False\<close> is \<open>return False\<close>, \<open>Inr True\<close> goes on to the next
  item.  The entry under the key \<open>wrong_info\<close> and an entry whose \<open>env_synthesis_result\<close>
  is null are passed over, as a null entry is.
\<close>

definition check_entry :: "string \<Rightarrow> env_entry \<Rightarrow> py_error + bool" where
  "check_entry k v =
     (case env_synthesis_result v of
        None \<Rightarrow> Inr True
      | Some r \<Rightarrow>
          if k \<noteq> ''wrong_info'' then
            (let cur_answer = entry_answer v;
                 cur_statement = tool_call_statement (data r);
                 cur_code = code (data r);
                 cur_tool_doc = tool_document (data r);
                 cur_tool_ans = tool_call_ans (data r)
             in if cur_statement = JNull \<or> cur_code = JNull \<or> cur_tool_doc = JNull \<or> cur_tool_ans = None
                then Inr False
                else
                  err_bind (py_contains ''name'' cur_tool_doc) (\<lambda>has_name.
                    if \<not> has_name then Inr False
                    else
                      err_bind (py_contains ''description'' cur_tool_doc) (\<lambda>has_description.
                        if \<not> has_description then Inr False
                        else
                          err_bind (py_contains ''parameters'' cur_tool_doc) (\<lambda>has_parameters.
                            if \<not> has_parameters then Inr False
                            else
                              err_bind (py_contains ''http'' cur_statement) (\<lambda>has_http.
                                if has_http then Inr False
                                else (case cur_tool_ans of
                                        None \<Rightarrow> Inr False
                                      | Some out \<Rightarrow> Inr (str_in cur_answer out)))))))
          else Inr True)"

fun check_env_items :: "(string \<times> env_entry option) list \<Rightarrow> py_error + bool" where
  "check_env_items [] = Inr True"
| "check_env_items ((k, None) # rest) = check_env_items rest"
| "check_env_items ((k, Some v) # rest) =
     err_bind (check_entry k v) (\<lambda>ok. if ok then check_env_items rest else Inr False)"

text \<open>
  The record the merge engine works on.  Of a step of \<open>decomposition_trace\<close> only the
  uuid and \<open>tool_necessity\<close> are read here; a cluster is its \<open>_uuids\<close> with the intent
  summary.  Uuids are strings (\<open>str(uuid)\<close> is the uuid).
\<close>

record trace_step =
  step_uuid :: string
  tool_necessity :: bool

record cluster =
  intent_summary :: string
  cluster_uuids :: "string list"

text \<open>
  What \<open>merge_single_cluster_code\<close> returns for a cluster.  Every shape of its result has
  \<open>_uuids\<close>, \<open>status\<close> and \<open>merged_code\<close>; the results with status \<open>no_data\<close>, \<open>failed\<close>
  and \<open>error\<close> have no \<open>tool_document\<close>, \<open>tool_call_statements\<close> or \<open>verification\<close>
  key (here \<open>None\<close>).  A test result has its \<open>stdout\<close> only when the sandbox ran.
\<close>

record test_result =
  test_uuid :: string
  test_status :: string
  test_stdout :: "string option"

record call_statement_entry =
  statement_uuid :: string
  statement :: json

record aggregated =
  agg_uuids :: "string list"
  agg_status :: string
  merged_code :: json
  agg_tool_document :: "json option"
  tool_call_statements :: "call_statement_entry list option"
  test_results :: "test_result list option"

record data_dict =
  record_uuid :: string
  env_result :: "(string \<times> env_entry option) list option"
  decomposition_trace :: "trace_step list"
  clusters :: "cluster list"
  aggregated_env :: "aggregated list"

definition check_env :: "data_dict \<Rightarrow> py_error + bool" where
  "check_env data_dict =
     (case env_result data_dict of None \<Rightarrow> Inl AttributeError | Some items \<Rightarrow> check_env_items items)"

text \<open>
  A dict built by assignment in a loop keeps, for a key set twice, the last value:
  \<open>dict_of key xs\<close> is that dict for the entries \<open>xs\<close>.
\<close>

definition dict_of :: "('a \<Rightarrow> 'k) \<Rightarrow> 'a list \<Rightarrow> 'k \<Rightarrow> 'a option" where
  "dict_of key xs = map_of (rev (map (\<lambda>x. (key x, x)) xs))"

definition set_item :: "string \<Rightarrow> env_entry \<Rightarrow> (string \<times> env_entry option) list \<Rightarrow> (string \<times> env_entry option) list" where
  "set_item k e items = map (\<lambda>(k', v). if k' = k then (k', Some e) else (k', v)) items"

text \<open>
  The inner loop of \<open>post_process_merge_tools\<close> over the test results of one cluster.
  \<open>Inr None\<close> is \<open>return None\<close>; \<open>Inr (Some items)\<close> is the end of the loop with
  \<open>env_result\<close> as rewritten.
\<close>

fun process_test_results ::
  "json \<Rightarrow> json \<Rightarrow> (string \<Rightarrow> call_statement_entry option) \<Rightarrow> test_result list \<Rightarrow>
   (string \<times> env_entry option) list \<Rightarrow> py_error + (string \<times> env_entry option) list option" where
  "process_test_results merge_code doc stmts [] items = Inr (Some items)"
| "process_test_results merge_code doc stmts (t # ts) items =
     (if test_status t = ''passed'' then
        (case map_of items (test_uuid t) of
           None \<Rightarrow> Inl KeyError
         | Some None \<Rightarrow> Inl TypeError
         | Some (Some e) \<Rightarrow>
             (case env_synthesis_result e of
                None \<Rightarrow> Inl TypeError
              | Some r \<Rightarrow>
                  (case stmts (test_uuid t) of
                     None \<Rightarrow> Inl KeyError
                   | Some s \<Rightarrow>
                       (case test_stdout t of
                          None \<Rightarrow> Inl KeyError
                        | Some out \<Rightarrow>
                            (let e' = e\<lparr>env_synthesis_result :=
                                          Some (r\<lparr>data := (data r)\<lparr>code := merge_code,
                                                                   tool_document := doc,
                                                                   tool_call_statement := statement s\<rparr>\<rparr>),
                                        merge_flag := True\<rparr>
                             in if \<not> str_in (entry_answer e) out then Inr None
                                else process_test_results merge_code doc stmts ts
                                       (set_item (test_uuid t) e' items))))))
      else Inr None)"

text \<open>The outer loop over the clusters; a cluster of one uuid is passed over.\<close>

fun process_clusters ::
  "(string list \<Rightarrow> aggregated option) \<Rightarrow> cluster list \<Rightarrow>
   (string \<times> env_entry option) list \<Rightarrow> py_error + (string \<times> env_entry option) list option" where
  "process_clusters aggs [] items = Inr (Some items)"
| "process_clusters aggs (c # cs) items =
     (if length (cluster_uuids c) = 1 then process_clusters aggs cs items
      else
        (case aggs (cluster_uuids c) of
           None \<Rightarrow> Inl KeyError
         | Some cur \<Rightarrow>
             (case agg_tool_document cur of
                None \<Rightarrow> Inl KeyError
              | Some doc \<Rightarrow>
                  (case tool_call_statements cur of
                     None \<Rightarrow> Inl KeyError
                   | Some stmts \<Rightarrow>
                       (case test_results cur of
                          None \<Rightarrow> Inl KeyError
                        | Some tests \<Rightarrow>
                            err_bind
                              (process_test_results (merged_code cur) doc
                                 (dict_of statement_uuid stmts) tests items)
                              (\<lambda>res. case res of
                                        None \<Rightarrow> Inr None
                                      | Some items' \<Rightarrow> process_clusters aggs cs items'))))))"

definition post_process_merge_tools :: "data_dict \<Rightarrow> py_error + data_dict option" where
  "post_process_merge_tools d =
     (case env_result d of
        None \<Rightarrow> Inl TypeError
      | Some items \<Rightarrow>
          err_bind (process_clusters (dict_of agg_uuids (aggregated_env d)) (clusters d) items)
            (\<lambda>res. case res of
                      None \<Rightarrow> Inr None
                    | Some items' \<Rightarrow> Inr (Some (d\<lparr>env_result := Some items'\<rparr>))))"

text \<open>
  The two model calls of \<open>merge_tools\<close> are outside the program: \<open>intent_aggregation\<close>
  gives the clusters for the record without its steps of \<open>tool_necessity\<close> False (or the
  exception that reading \<open>res["clusters"]\<close> raises), and \<open>merge_single_cluster_code\<close> the
  merge result of one cluster.
\<close>

record merge_outside =
  intent_aggregation :: "data_dict \<Rightarrow> py_error + cluster list"
  merge_single_cluster_code :: "data_dict \<Rightarrow> cluster \<Rightarrow> aggregated"

text \<open>
  \<open>merge_tools\<close> (its \<open>data\<close> is \<open>d\<close> here).  After \<open>data = post_process_merge_tools(data)\<close> the next statement is
  \<open>logger.info(f"... {data['uuid']} done")\<close>, before the test \<open>if data is None\<close>: on a
  \<open>None\<close> the subscript raises TypeError.
\<close>

definition merge_tools :: "merge_outside \<Rightarrow> data_dict \<Rightarrow> py_error + data_dict option" where
  "merge_tools M d =
     (case env_result d of
        None \<Rightarrow> Inr (Some d)
      | Some items \<Rightarrow>
          err_bind (check_env d) (\<lambda>ok.
            if \<not> ok then Inr None
            else
              (let tmp_data = d\<lparr>decomposition_trace := filter tool_necessity (decomposition_trace d)\<rparr>
               in err_bind (intent_aggregation M tmp_data) (\<lambda>found.
                    let data1 = d\<lparr>clusters := found\<rparr>;
                        to_merge = filter (\<lambda>c. length (cluster_uuids c) > 1) found;
                        data2 = data1\<lparr>aggregated_env := map (merge_single_cluster_code M data1) to_merge\<rparr>
                    in if to_merge = [] then Inr (Some data2)
                       else
                         err_bind (post_process_merge_tools data2) (\<lambda>res.
                           case res of
                             None \<Rightarrow> Inl TypeError
                           | Some data3 \<Rightarrow> Inr (Some data3))))))"

section \<open>The chain builder (trajectory\_synthesis/src/1\_graph\_build/build)\<close>

text \<open>
  The graph of tools.  A node is known by the name of its tool: \<open>tools\<close> are the keys of
  the dict \<open>nodes\<close> in insertion order, and \<open>nexts g a\<close> is the list \<open>nexts\<close> of the node
  \<open>a\<close>, in the order in which \<open>add_next\<close> appended to it.
\<close>

record graph =
  tools :: "string list"
  nexts :: "string \<Rightarrow> string list"

text \<open>The keys of a dict filled in the order \<open>xs\<close>: a key set again keeps its place.\<close>

definition dict_keys :: "'a list \<Rightarrow> 'a list" where
  "dict_keys xs = rev (remdups (rev xs))"

definition add_next :: "graph \<Rightarrow> string \<Rightarrow> string \<Rightarrow> graph" where
  "add_next g a b = (if b \<in> set (nexts g a) then g else g\<lparr>nexts := (nexts g)(a := nexts g a @ [b])\<rparr>)"

text \<open>
  The inner loop of \<open>build_graph\<close> over the names of one detected chain; \<open>last_node\<close> is
  \<open>None\<close> before the first name that is a tool.  A name that is no tool is skipped.
\<close>

fun add_chain :: "graph \<Rightarrow> string option \<Rightarrow> string list \<Rightarrow> graph" where
  "add_chain g last_node [] = g"
| "add_chain g last_node (tool_name # rest) =
     (if tool_name \<notin> set (tools g) then add_chain g last_node rest
      else add_chain (case last_node of None \<Rightarrow> g | Some l \<Rightarrow> add_next g l tool_name)
             (Some tool_name) rest)"

definition build_graph :: "string list \<Rightarrow> string list list \<Rightarrow> graph" where
  "build_graph tool_list detected =
     foldl (\<lambda>g names. add_chain g None names) \<lparr>tools = dict_keys tool_list, nexts = (\<lambda>a. [])\<rparr> detected"

text \<open>The results of a list of computations, or the first exception among them.\<close>

fun err_all :: "(py_error + 'a) list \<Rightarrow> py_error + 'a list" where
  "err_all [] = Inr []"
| "err_all (m # ms) = err_bind m (\<lambda>v. err_bind (err_all ms) (\<lambda>vs. Inr (v # vs)))"

text \<open>
  The inner function \<open>dfs\<close> of \<open>get_chain\<close>.  The shared list \<open>chain\<close> is the argument \<open>path\<close> and
  the chains appended to \<open>chains\<close> are the result.  The first argument is the number of
  frames that the interpreter still allows: a call that has none raises RecursionError.
\<close>

fun dfs :: "nat \<Rightarrow> graph \<Rightarrow> string list \<Rightarrow> string \<Rightarrow> int \<Rightarrow> py_error + string list list" where
  "dfs 0 g path node len = Inl RecursionError"
| "dfs (Suc depth) g path node len =
     (if len = 0 then Inr (if path \<noteq> [] then [path] else [])
      else err_bind (err_all (map (\<lambda>next. dfs depth g (path @ [next]) next (len - 1)) (nexts g node)))
             (\<lambda>found. Inr (concat found)))"

definition get_chain :: "nat \<Rightarrow> graph \<Rightarrow> string \<Rightarrow> int \<Rightarrow> py_error + string list list" where
  "get_chain depth g node len = dfs depth g [node] node (len - 1)"

definition get_chins_from_graph :: "nat \<Rightarrow> graph \<Rightarrow> int \<Rightarrow> py_error + string list list" where
  "get_chins_from_graph depth g len =
     err_bind (err_all (map (\<lambda>node. get_chain depth g node len) (tools g))) (\<lambda>found. Inr (concat found))"

text \<open>
  The loop of \<open>main\<close> over \<open>range(min_length, max_length + 1)\<close>, which collects the
  sub-chains of every length.
\<close>

definition sub_chains :: "nat \<Rightarrow> graph \<Rightarrow> int \<Rightarrow> int \<Rightarrow> py_error + string list list" where
  "sub_chains depth g min_length max_length =
     err_bind (err_all (map (get_chins_from_graph depth g) [min_length..max_length]))
       (\<lambda>found. Inr (concat found))"

text \<open>
  Paths of a graph.  A walk starts at a tool and follows edges; a simple path is a walk
  that visits no tool twice.
\<close>

fun walk_from :: "graph \<Rightarrow> string \<Rightarrow> string list \<Rightarrow> bool" where
  "walk_from g a [] = True"
| "walk_from g a (b # rest) = (b \<in> set (nexts g a) \<and> walk_from g b rest)"

fun walk :: "graph \<Rightarrow> string list \<Rightarrow> bool" where
  "walk g [] = False"
| "walk g (a # rest) = (a \<in> set (tools g) \<and> walk_from g a rest)"

definition simple_path :: "graph \<Rightarrow> string list \<Rightarrow> bool" where
  "simple_path g p = (walk g p \<and> distinct p)"

text \<open>The walks of \<open>n\<close> further steps from a node, in the order of the search.\<close>

fun steps_from :: "graph \<Rightarrow> string \<Rightarrow> nat \<Rightarrow> string list list" where
  "steps_from g a 0 = [[]]"
| "steps_from g a (Suc n) = concat (map (\<lambda>b. map ((#) b) (steps_from g b n)) (nexts g a))"

text \<open>The walks of \<open>Suc n\<close> tools, from every tool in turn.\<close>

definition chains_of_length :: "graph \<Rightarrow> nat \<Rightarrow> string list list" where
  "chains_of_length g n = concat (map (\<lambda>a. map ((#) a) (steps_from g a n)) (tools g))"


section \<open>The agent runner (trajectory\_synthesis/src/3\_interaction/interact\_qwen\_agent.py)\<close>

text \<open>
  A record of the input file.  Of \<open>query_info\<close> the runner reads \<open>generated_question\<close>
  (the empty string when the key is absent) and the dict \<open>augmented_query_info\<close> (empty
  when absent); the rest of the record, \<open>mcp_info\<close> and what earlier stages added, is
  \<open>carried\<close>.  \<open>trajectory\<close> is \<open>None\<close> until the runner has set it.
\<close>

record query_info =
  generated_question :: string
  augmented_query_info :: "(string \<times> string) list"

record ('c, 't) item =
  item_query_info :: query_info
  carried :: 'c
  trajectory :: "'t option"

text \<open>
  The characters of \<open>\w\<close>, on strings of ASCII characters, and the match of
  \<open>^<(\w+)>(.*)</\1>$\<close> (with DOTALL) against a stripped string: the string opens with a
  tag and ends with the closing tag of the same name, and the second group is what stands
  between the two.
\<close>

definition is_word :: "char \<Rightarrow> bool" where
  "is_word c = (c \<in> set ''abcdefghijklmnopqrstuvwxyzABCDEFGHIJKLMNOPQRSTUVWXYZ0123456789_'')"

definition match_tags :: "string \<Rightarrow> string option" where
  "match_tags query =
     (case query of
        [] \<Rightarrow> None
      | c # rest \<Rightarrow>
          (let tag = takeWhile is_word rest;
               after = dropWhile is_word rest;
               closing = ''</'' @ tag @ ''>''
           in if c = CHR ''<'' \<and> tag \<noteq> [] \<and> prefix ''>'' after \<and> suffix closing (drop 1 after)
              then Some (take (length (drop 1 after) - length closing) (drop 1 after))
              else None))"

definition extract_query :: "query_info \<Rightarrow> string" where
  "extract_query qi =
     (let augmented = augmented_query_info qi;
          query =
            (if augmented = [] \<or> (case map_of augmented ''augmented_question'' of
                                      None \<Rightarrow> True | Some q \<Rightarrow> q = [])
             then generated_question qi
             else (case map_of augmented ''augmented_question'' of None \<Rightarrow> [] | Some q \<Rightarrow> q));
          query = strip query
      in case match_tags query of Some inner \<Rightarrow> strip inner | None \<Rightarrow> query)"

text \<open>
  \<open>load_data\<close>: the records of the input file whose query is not the query of a line of
  the output file.  An output file that does not exist reads as no lines.
\<close>

definition load_data :: "('c, 't) item list \<Rightarrow> ('c, 't) item list \<Rightarrow> ('c, 't) item list" where
  "load_data output_lines input_lines =
     (let query_set = set (map (\<lambda>data_line. extract_query (item_query_info data_line)) output_lines)
      in filter (\<lambda>data_line. extract_query (item_query_info data_line) \<notin> query_set) input_lines)"

text \<open>
  \<open>process_item\<close> sets the trajectory of a record and keeps the rest: \<open>agent\<close> gives the
  trajectory of the run for the record (the messages, or the one error message after a
  failure or a timeout).
\<close>

definition process_item :: "(('c, 't) item \<Rightarrow> 't) \<Rightarrow> ('c, 't) item \<Rightarrow> ('c, 't) item" where
  "process_item agent it = it\<lparr>trajectory := Some (agent it)\<rparr>"

text \<open>
  A run of \<open>main\<close>: the records that \<open>load_data\<close> keeps are processed by the pool of
  workers and each result is appended to the output file when it completes, so the lines
  added are the results in some order.  \<open>written\<close> are the lines that a run had appended
  when it was interrupted, \<open>completes\<close> is a run that came to its end.
\<close>

definition written :: "(('c, 't) item \<Rightarrow> 't) \<Rightarrow> ('c, 't) item list \<Rightarrow> ('c, 't) item list \<Rightarrow> ('c, 't) item list \<Rightarrow> bool" where
  "written agent output_lines input_lines added =
     (mset added \<subseteq># mset (map (process_item agent) (load_data output_lines input_lines)))"

definition completes :: "(('c, 't) item \<Rightarrow> 't) \<Rightarrow> ('c, 't) item list \<Rightarrow> ('c, 't) item list \<Rightarrow> ('c, 't) item list \<Rightarrow> bool" where
  "completes agent output_lines input_lines final =
     (\<exists>added. final = output_lines @ added \<and>
        mset added = mset (map (process_item agent) (load_data output_lines input_lines)))"

section \<open>The reward scorer (messages\_synthesis/src/4\_reward/reward.py)\<close>

text \<open>
  A trajectory is the list under the key \<open>messages\<close>, each message a dict.  Of a message
  the scorers modelled here read four keys.  \<open>role_of\<close> and \<open>tool_call_id_of\<close> are
  \<open>msg.get(...)\<close>, \<open>None\<close> when the key is absent; \<open>content_of\<close> is \<open>None\<close> when the message
  has no key \<open>content\<close> and \<open>Some None\<close> when its content is null; \<open>tool_calls_of\<close> is
  \<open>None\<close> when the message has no key \<open>tool_calls\<close>.  Of a tool call, \<open>call_id\<close> is
  \<open>tool_call.get('id')\<close> and \<open>function_name\<close> the name of its function, \<open>None\<close> when
  the tool call has no function or the function no name.  The text type \<open>'s\<close> is left
  open: the tool-call scorer only passes texts on to the model.
\<close>

record tool_call =
  call_id :: "string option"
  function_name :: "string option"

record 's message =
  role_of :: "string option"
  content_of :: "'s option option"
  tool_call_id_of :: "string option"
  tool_calls_of :: "tool_call list option"

definition TOOL_CALL_TOOL_STATUS :: bool where
  "TOOL_CALL_TOOL_STATUS = True"

definition SAFE_TOOL_CALL_SCORE :: rat where
  "SAFE_TOOL_CALL_SCORE = 1"

definition SAFE_FINAL_ANSWER_SCORE_CORRELATION :: rat where
  "SAFE_FINAL_ANSWER_SCORE_CORRELATION = 1"

text \<open>The truth value of \<open>msg.get(key)\<close> for a string: absent and empty are false.\<close>

definition truthy :: "string option \<Rightarrow> bool" where
  "truthy v = (case v of None \<Rightarrow> False | Some s \<Rightarrow> s \<noteq> [])"

text \<open>\<open>msg.get('content')\<close>: null also when the key is absent.\<close>

definition get_content :: "'s message \<Rightarrow> 's option" where
  "get_content msg = (case content_of msg of None \<Rightarrow> None | Some v \<Rightarrow> v)"

subsection \<open>Tool-call success\<close>

text \<open>
  \<open>_get_LLM_tool_status\<close> asks the model about the content of one tool message and
  retries on every exception; \<open>judge i c\<close> is the truth value of \<open>tool_status\<close> in what it
  returns for the \<open>i\<close>-th task on the content \<open>c\<close>, the defaults after a failed parse or
  after the last retry included.  A null or absent content makes \<open>str.replace\<close> raise at
  every attempt, so the status is the default \<open>TOOL_CALL_TOOL_STATUS\<close>.
\<close>

definition get_LLM_tool_status :: "(nat \<Rightarrow> 's \<Rightarrow> bool) \<Rightarrow> nat \<Rightarrow> 's option \<Rightarrow> bool" where
  "get_LLM_tool_status judge i tool_return_content =
     (case tool_return_content of None \<Rightarrow> TOOL_CALL_TOOL_STATUS | Some c \<Rightarrow> judge i c)"

text \<open>
  The result of \<open>get_tool_call_score\<close>: its \<open>score\<close>, whether \<open>extra_info\<close> holds
  \<open>is_safe_score: 1\<close>, and \<open>success_times\<close> and \<open>fail_times\<close> of \<open>extra_info\<close>, which the
  safe result does not have.  The score is a quotient of floats in the code and the exact
  quotient here.
\<close>

record tool_call_score =
  score :: rat
  is_safe_score :: bool
  success_times :: "nat option"
  fail_times :: "nat option"

definition tool_call_map_of :: "'s message list \<Rightarrow> string \<rightharpoonup> string" where
  "tool_call_map_of messages =
     fold (\<lambda>msg tool_call_map.
             if role_of msg = Some ''assistant''
             then (case tool_calls_of msg of
                     None \<Rightarrow> tool_call_map
                   | Some calls \<Rightarrow>
                       fold (\<lambda>tc m. case call_id tc of
                                       None \<Rightarrow> m
                                     | Some tool_call_id \<Rightarrow>
                                         if tool_call_id \<noteq> [] \<and> truthy (function_name tc)
                                         then m(tool_call_id := function_name tc) else m)
                            calls tool_call_map)
             else tool_call_map)
          messages Map.empty"

definition tool_msg_list_of :: "'s message list \<Rightarrow> (string \<times> string option \<times> 's message) list" where
  "tool_msg_list_of messages =
     (let tool_call_map = tool_call_map_of messages
      in concat (map (\<lambda>msg.
           if role_of msg = Some ''tool''
           then (case tool_call_id_of msg of
                   None \<Rightarrow> []
                 | Some tool_call_id \<Rightarrow>
                     if tool_call_id \<noteq> [] then [(tool_call_id, tool_call_map tool_call_id, msg)] else [])
           else []) messages))"

definition get_tool_call_score :: "(nat \<Rightarrow> 's \<Rightarrow> bool) \<Rightarrow> 's message list \<Rightarrow> py_error + tool_call_score" where
  "get_tool_call_score judge messages =
     (if length messages < 2 then Inl IndexError
      else case content_of (messages ! 1) of
        None \<Rightarrow> Inl KeyError
      | Some query \<Rightarrow>
          (let tool_msg_list = tool_msg_list_of messages;
               tool_status_results =
                 map (\<lambda>(i, (tool_call_id, name, msg)). get_LLM_tool_status judge i (get_content msg))
                     (zip [0..<length tool_msg_list] tool_msg_list);
               total_success = length (filter (\<lambda>tool_status. tool_status) tool_status_results);
               total_fail = length (filter (\<lambda>tool_status. \<not> tool_status) tool_status_results);
               total_calls = total_success + total_fail
           in if total_calls > 0
              then Inr \<lparr>score = (1 * of_nat total_success + (1 / 2) * of_nat total_fail) / of_nat total_calls,
                        is_safe_score = False,
                        success_times = Some total_success, fail_times = Some total_fail\<rparr>
              else Inr \<lparr>score = SAFE_TOOL_CALL_SCORE, is_safe_score = True,
                        success_times = None, fail_times = None\<rparr>))"

subsection \<open>Final-answer correlation\<close>

text \<open>
  A text of this scorer is a list of code points.  \<open>detect_language\<close> counts the characters
  from U+4E00 to U+9FFF and the other characters that \<open>str.isalpha\<close> accepts;
  \<open>isalpha\<close> stands for the Unicode table.  The ratios are floats in the code and exact
  here: the comparisons with 0.6 and 0.7 agree for a text of less than \<open>2 ^ 50\<close>
  characters.  A text that is null, not a string or empty has the language \<open>Unknown\<close>.
\<close>

datatype language = Zh | En | Mixed | Unknown

definition cjk :: "nat \<Rightarrow> bool" where
  "cjk char = (0x4e00 \<le> char \<and> char \<le> 0x9fff)"

definition detect_language :: "(nat \<Rightarrow> bool) \<Rightarrow> nat list option \<Rightarrow> language" where
  "detect_language isalpha text =
     (case text of
        None \<Rightarrow> Unknown
      | Some t \<Rightarrow>
          if t = [] then Unknown
          else (let chinese_chars = length (filter cjk t);
                    english_chars = length (filter (\<lambda>char. \<not> cjk char \<and> isalpha char) t);
                    total_chars = chinese_chars + english_chars
                in if total_chars = 0 then Unknown
                   else (let chinese_ratio = (of_nat chinese_chars :: rat) / of_nat total_chars;
                             english_ratio = (of_nat english_chars :: rat) / of_nat total_chars
                         in if chinese_ratio > 6 / 10 then Zh
                            else if english_ratio > 7 / 10 then En
                            else Mixed)))"

definition check_language_consistency_final_answer :: "(nat \<Rightarrow> bool) \<Rightarrow> nat list option \<Rightarrow> nat list option \<Rightarrow> bool" where
  "check_language_consistency_final_answer isalpha query final_answer =
     (let query_lang = detect_language isalpha query;
          answer_lang = detect_language isalpha final_answer
      in if query_lang = Unknown \<or> answer_lang = Unknown then True
         else if query_lang = answer_lang then True
         else False)"

text \<open>
  \<open>_evaluate_final_answer_correlation_final_answer\<close>.  The model is asked through
  \<open>get_model_ans\<close>, which may raise, with the prompt made of the query and the answer;
  \<open>parse\<close> is \<open>_parse_json_final_answer\<close> on its response, an exception of which gives the
  safe score.  The result is the score, whether it is the score of a language mismatch,
  and the prompts that were sent to the model.
\<close>

record correlation =
  correlation_score :: rat
  language_inconsistency :: bool
  prompts_sent :: "(nat list \<times> nat list) list"

definition evaluate_final_answer_correlation_final_answer ::
  "(nat \<Rightarrow> bool) \<Rightarrow> (nat list \<times> nat list \<Rightarrow> py_error + 'r) \<Rightarrow> ('r \<Rightarrow> py_error + rat) \<Rightarrow>
   (nat list) message list \<Rightarrow> py_error + correlation" where
  "evaluate_final_answer_correlation_final_answer isalpha get_model_ans parse messages =
     (if length messages < 2 then Inl IndexError
      else case content_of (messages ! 1) of
        None \<Rightarrow> Inl KeyError
      | Some query \<Rightarrow>
          (case content_of (last messages) of
             None \<Rightarrow> Inl KeyError
           | Some final_answer \<Rightarrow>
               if \<not> check_language_consistency_final_answer isalpha query final_answer
               then Inr \<lparr>correlation_score = 0, language_inconsistency = True, prompts_sent = []\<rparr>
               else (case (query, final_answer) of
                       (Some q, Some a) \<Rightarrow>
                         (case get_model_ans (q, a) of
                            Inl e \<Rightarrow> Inl e
                          | Inr response \<Rightarrow>
                              Inr \<lparr>correlation_score =
                                     (case parse response of
                                        Inl e \<Rightarrow> SAFE_FINAL_ANSWER_SCORE_CORRELATION
                                      | Inr s \<Rightarrow> s),
                                   language_inconsistency = False, prompts_sent = [(q, a)]\<rparr>)
                     | _ \<Rightarrow> Inl TypeError)))"

section \<open>Concrete inputs\<close>

text \<open>
  A model and a sandbox for one question, used to run the definitions: the model answers
  each stage with a fixed text, which decodes to a dict with the keys of the stage, and
  the sandbox reports \<open>Success\<close> with the stdout \<open>out\<close>.
\<close>

definition decode0 :: "string \<Rightarrow> json option" where
  "decode0 s =
     (if s = ''DOC'' then
        Some (JDict [(''tool'', JDict [(''name'', JStr ''multiply'')]), (''analysis'', JStr ''one tool'')])
      else if s = ''REFINED'' then
        Some (JDict [(''refined_version'',
                      JDict [(''name'', JStr ''multiply''), (''description'', JStr ''product of two numbers''),
                             (''parameters'', JDict [])]),
                     (''analysis'', JStr ''richer schema'')])
      else if s = ''CALL'' then
        Some (JDict [(''call'', JStr ''multiply(a=12, b=7)''), (''analysis'', JStr ''both arguments'')])
      else if s = ''CODE'' then
        Some (JDict [(''function'', JStr ''def multiply(a, b): return str(a * b)''),
                     (''analysis'', JStr ''mock'')])
      else None)"

definition llm0 :: "nat \<Rightarrow> prompt \<Rightarrow> string option" where
  "llm0 n p =
     (case p of
        PROMPT_TOOL_DOCUMENT_GENERATION q \<Rightarrow> Some ''DOC''
      | PROMPT_TOOL_DOCUMENT_COMPLEXITY_SCALING d \<Rightarrow> Some ''<think>wider</think> ```json REFINED ```''
      | PROMPT_CALL_STATEMENT q d \<Rightarrow> Some ''CALL''
      | PROMPT_TOOL_DEPLOYMENT d qa c \<Rightarrow> Some ''CODE'')"

definition sandbox0 :: "string \<Rightarrow> nat \<Rightarrow> json \<Rightarrow> py_error + sandbox_reply" where
  "sandbox0 out n c = Inr \<lparr>status = ''Success'', stdout = out\<rparr>"

definition outside0 :: "string \<Rightarrow> outside" where
  "outside0 out = \<lparr>decode = decode0, py_str = (\<lambda>v. ''?''), llm = llm0, sandbox = sandbox0 out\<rparr>"

definition qa0 :: q_a_pairs where
  "qa0 = \<lparr>question = ''What is 12 x 7?'', answer = ''84'', uuid = ''1'', hop_level = 1\<rparr>"

definition world0 :: world where
  "world0 = \<lparr>prompts = [], posts = [], logged = []\<rparr>"




definition entry0 :: env_entry where
  "entry0 =
     \<lparr>entry_question = ''What is 12 x 7?'', entry_answer = ''84'',
      env_synthesis_result = Some
        \<lparr>data = \<lparr>tool_document =
                    JDict [(''name'', JStr ''multiply''), (''description'', JStr ''product of two numbers''),
                           (''parameters'', JDict [])],
                  tool_call_statement = JStr ''multiply(a=12, b=7)'',
                  code = JStr ''def multiply(a, b): return str(a * b)'',
                  tool_call_ans = Some ''84''\<rparr>,
         extra_info = \<lparr>tool_document_generation_result = None,
                       tool_document_complexity_scaling_result = None,
                       tool_call_statement_result = None,
                       tool_deployment_result = None\<rparr>\<rparr>,
      merge_flag = False\<rparr>"

definition record0 :: data_dict where
  "record0 =
     \<lparr>record_uuid = ''r0'', env_result = Some [(''1'', Some entry0), (''2'', None)],
      decomposition_trace = [\<lparr>step_uuid = ''1'', tool_necessity = True\<rparr>,
                             \<lparr>step_uuid = ''2'', tool_necessity = False\<rparr>],
      clusters = [], aggregated_env = []\<rparr>"

text \<open>
  A model that has given up (every payload is null), and one that answers every prompt
  with a sentence that is not JSON.
\<close>

definition outside_null :: outside where
  "outside_null = \<lparr>decode = decode0, py_str = (\<lambda>v. ''?''), llm = (\<lambda>n p. None), sandbox = sandbox0 ''84''\<rparr>"

definition outside_refusal :: outside where
  "outside_refusal =
     \<lparr>decode = decode0, py_str = (\<lambda>v. ''?''), llm = (\<lambda>n p. Some ''I cannot help with that.''),
      sandbox = sandbox0 ''84''\<rparr>"


text \<open>The results of the four stages in a run with these replies.\<close>

definition gen0 :: stage_result where
  "gen0 = \<lparr>content = JDict [(''name'', JStr ''multiply'')], analysis = JStr ''one tool''\<rparr>"

definition scaled0 :: stage_result where
  "scaled0 =
     \<lparr>content = JDict [(''name'', JStr ''multiply''), (''description'', JStr ''product of two numbers''),
                        (''parameters'', JDict [])],
      analysis = JStr ''richer schema''\<rparr>"

definition call0 :: stage_result where
  "call0 = \<lparr>content = JStr ''multiply(a=12, b=7)'', analysis = JStr ''both arguments''\<rparr>"

definition dep0 :: stage_result where
  "dep0 = \<lparr>content = JStr ''def multiply(a, b): return str(a * b)'', analysis = JStr ''mock''\<rparr>"

text \<open>
  A model that proposes another tool document whenever it is asked again, and a sandbox
  whose first ten replies do not hold the expected answer.
\<close>

definition decode1 :: "string \<Rightarrow> json option" where
  "decode1 s =
     (if s = ''DOC_B'' then
        Some (JDict [(''tool'', JDict [(''name'', JStr ''times'')]), (''analysis'', JStr ''another tool'')])
      else if s = ''REFINED_B'' then
        Some (JDict [(''refined_version'',
                      JDict [(''name'', JStr ''times''), (''description'', JStr ''product of two numbers''),
                             (''parameters'', JDict [])]),
                     (''analysis'', JStr ''richer schema'')])
      else decode0 s)"

definition llm1 :: "nat \<Rightarrow> prompt \<Rightarrow> string option" where
  "llm1 n p =
     (case p of
        PROMPT_TOOL_DOCUMENT_GENERATION q \<Rightarrow> Some (if n = 0 then ''DOC'' else ''DOC_B'')
      | PROMPT_TOOL_DOCUMENT_COMPLEXITY_SCALING d \<Rightarrow>
          Some (if d = JDict [(''name'', JStr ''multiply'')] then ''REFINED'' else ''REFINED_B'')
      | PROMPT_CALL_STATEMENT q d \<Rightarrow> Some ''CALL''
      | PROMPT_TOOL_DEPLOYMENT d qa c \<Rightarrow> Some ''CODE'')"

definition sandbox1 :: "nat \<Rightarrow> json \<Rightarrow> py_error + sandbox_reply" where
  "sandbox1 n c = Inr \<lparr>status = ''Success'', stdout = (if n < 10 then ''83'' else ''84'')\<rparr>"

definition outside1 :: outside where
  "outside1 = \<lparr>decode = decode1, py_str = (\<lambda>v. ''?''), llm = llm1, sandbox = sandbox1\<rparr>"


text \<open>
  A record with two synthesized tools that the model puts into one cluster, and a merge
  result for it: the test of the first uuid passed, the test of the second is \<open>second\<close>.
\<close>

definition entry1 :: env_entry where
  "entry1 = entry0\<lparr>entry_question := ''What is 9 x 11?'', entry_answer := ''99'',
      env_synthesis_result := Some
        \<lparr>data = \<lparr>tool_document =
                    JDict [(''name'', JStr ''product''), (''description'', JStr ''product of two numbers''),
                           (''parameters'', JDict [])],
                  tool_call_statement = JStr ''product(9, 11)'',
                  code = JStr ''def product(a, b): return str(a * b)'',
                  tool_call_ans = Some ''99''\<rparr>,
         extra_info = \<lparr>tool_document_generation_result = None,
                       tool_document_complexity_scaling_result = None,
                       tool_call_statement_result = None,
                       tool_deployment_result = None\<rparr>\<rparr>\<rparr>"

definition record1 :: data_dict where
  "record1 =
     \<lparr>record_uuid = ''r1'', env_result = Some [(''1'', Some entry0), (''2'', Some entry1)],
      decomposition_trace = [\<lparr>step_uuid = ''1'', tool_necessity = True\<rparr>,
                             \<lparr>step_uuid = ''2'', tool_necessity = True\<rparr>],
      clusters = [], aggregated_env = []\<rparr>"

definition cluster1 :: cluster where
  "cluster1 = \<lparr>intent_summary = ''multiply two numbers'', cluster_uuids = [''1'', ''2'']\<rparr>"

definition partial_success :: "test_result \<Rightarrow> aggregated" where
  "partial_success second =
     \<lparr>agg_uuids = [''1'', ''2''], agg_status = ''partial_success'',
      merged_code = JStr ''def multiply(a, b): return str(a * b)'',
      agg_tool_document =
        Some (JDict [(''name'', JStr ''multiply''), (''description'', JStr ''product of two numbers''),
                     (''parameters'', JDict [])]),
      tool_call_statements = Some [\<lparr>statement_uuid = ''1'', statement = JStr ''multiply(12, 7)''\<rparr>,
                                   \<lparr>statement_uuid = ''2'', statement = JStr ''multiply(9, 11)''\<rparr>],
      test_results = Some [\<lparr>test_uuid = ''1'', test_status = ''passed'', test_stdout = Some ''84''\<rparr>, second]\<rparr>"

definition merging :: "test_result \<Rightarrow> merge_outside" where
  "merging second =
     \<lparr>intent_aggregation = (\<lambda>d. Inr [cluster1]),
      merge_single_cluster_code = (\<lambda>d c. partial_success second)\<rparr>"


subsection \<open>Records of the agent runner\<close>

text \<open>
  Three records of an input file: two whose question is the same once the tags and the
  blanks around it are removed, and one with an augmented question.  The agent of the
  example gives every record the same trajectory.
\<close>

definition asked :: "(string, string list) item" where
  "asked = \<lparr>item_query_info = \<lparr>generated_question = '' <q>What is 12 x 7? </q> '', augmented_query_info = []\<rparr>,
            carried = ''chain 1'', trajectory = None\<rparr>"

definition asked_again :: "(string, string list) item" where
  "asked_again = \<lparr>item_query_info = \<lparr>generated_question = ''What is 12 x 7?'', augmented_query_info = []\<rparr>,
            carried = ''chain 2'', trajectory = None\<rparr>"

definition augmented :: "(string, string list) item" where
  "augmented = \<lparr>item_query_info = \<lparr>generated_question = ''What is 12 x 7?'',
                 augmented_query_info = [(''mode'', ''diverse''), (''augmented_question'', ''Multiply 12 by 7.'')]\<rparr>,
            carried = ''chain 1'', trajectory = None\<rparr>"

definition agent0 :: "(string, string list) item \<Rightarrow> string list" where
  "agent0 it = [''system'', ''user'', ''assistant'']"

subsection \<open>Trajectories of the reward scorer\<close>

text \<open>
  A trajectory with two tool calls that both fail, the trajectory of one message that the
  agent runner writes after an error, and a trajectory whose tool message has no
  \<open>tool_call_id\<close>.  The model of the example judges every tool message as failed.
\<close>

definition system_message :: "string message" where
  "system_message = \<lparr>role_of = Some ''system'', content_of = Some (Some ''You are a helpful assistant.''),
                      tool_call_id_of = None, tool_calls_of = None\<rparr>"

definition user_message :: "string message" where
  "user_message = \<lparr>role_of = Some ''user'', content_of = Some (Some ''What is 12 x 7 + 1?''),
                    tool_call_id_of = None, tool_calls_of = None\<rparr>"

definition calling_message :: "string message" where
  "calling_message = \<lparr>role_of = Some ''assistant'', content_of = Some None, tool_call_id_of = None,
       tool_calls_of = Some [\<lparr>call_id = Some ''call_0_multiply'', function_name = Some ''multiply''\<rparr>,
                             \<lparr>call_id = Some ''call_1_add'', function_name = Some ''add''\<rparr>]\<rparr>"

definition failed_multiply :: "string message" where
  "failed_multiply = \<lparr>role_of = Some ''tool'', content_of = Some (Some ''Error: timeout''),
                       tool_call_id_of = Some ''call_0_multiply'', tool_calls_of = None\<rparr>"

definition failed_add :: "string message" where
  "failed_add = \<lparr>role_of = Some ''tool'', content_of = Some (Some ''Error: unknown tool''),
                  tool_call_id_of = Some ''call_1_add'', tool_calls_of = None\<rparr>"

definition anonymous_tool_message :: "string message" where
  "anonymous_tool_message = \<lparr>role_of = Some ''tool'', content_of = Some (Some ''Error: timeout''),
                              tool_call_id_of = None, tool_calls_of = None\<rparr>"

definition final_message :: "string message" where
  "final_message = \<lparr>role_of = Some ''assistant'', content_of = Some (Some ''I could not compute it.''),
                     tool_call_id_of = None, tool_calls_of = None\<rparr>"

definition error_message :: "string message" where
  "error_message = \<lparr>role_of = Some ''assistant'', content_of = Some (Some ''[ERROR: timeout]''),
                     tool_call_id_of = None, tool_calls_of = None\<rparr>"

definition all_failures :: "string message list" where
  "all_failures = [system_message, user_message, calling_message, failed_multiply, failed_add, final_message]"

definition llm_rejects :: "nat \<Rightarrow> string \<Rightarrow> bool" where
  "llm_rejects i c = False"

text \<open>
  An English query with a Chinese answer, as code points: \<open>What is 12 x 7?\<close> and three
  ideographs followed by \<open>84\<close>.  \<open>isalpha0\<close> knows the ASCII letters and the ideographs.
\<close>

definition isalpha0 :: "nat \<Rightarrow> bool" where
  "isalpha0 c = ((65 \<le> c \<and> c \<le> 90) \<or> (97 \<le> c \<and> c \<le> 122) \<or> cjk c)"

definition english_query :: "nat list" where
  "english_query = [87, 104, 97, 116, 32, 105, 115, 32, 49, 50, 32, 120, 32, 55, 63]"

definition chinese_answer :: "nat list" where
  "chinese_answer = [0x7B54, 0x6848, 0x662F, 32, 56, 52]"

definition mismatch :: "(nat list) message list" where
  "mismatch =
     [\<lparr>role_of = Some ''system'', content_of = Some (Some []), tool_call_id_of = None, tool_calls_of = None\<rparr>,
      \<lparr>role_of = Some ''user'', content_of = Some (Some english_query), tool_call_id_of = None, tool_calls_of = None\<rparr>,
      \<lparr>role_of = Some ''assistant'', content_of = Some (Some chinese_answer), tool_call_id_of = None, tool_calls_of = None\<rparr>]"

definition model_agrees :: "nat list \<times> nat list \<Rightarrow> py_error + unit" where
  "model_agrees p = Inr ()"

definition parse_one :: "unit \<Rightarrow> py_error + rat" where
  "parse_one r = Inr 1"

(*MODEL-END*)

chapter \<open>Properties\<close>

section \<open>Strings\<close>

lemma str_in_sublist: "str_in needle hay = sublist needle hay"
  by (induction hay) (simp_all add: sublist_Cons_right)

lemma str_in_iff: "str_in needle hay \<longleftrightarrow> (\<exists>before after. hay = before @ needle @ after)"
  by (simp add: str_in_sublist sublist_def)

section \<open>The LLM client\<close>

subsection \<open>The loop returns on the first attempt that completes or overflows\<close>

lemma get_openai_model_ans_mono:
  "get_openai_model_ans fuel api n s = Some r \<Longrightarrow> get_openai_model_ans (Suc fuel) api n s = Some r"
proof (induction fuel arbitrary: n s)
  case 0
  then show ?case by simp
next
  case (Suc fuel)
  show ?case
  proof (cases "api n")
    case (Completed c)
    with Suc.prems show ?thesis by simp
  next
    case (Raised e)
    show ?thesis
    proof (cases "context_overflow e")
      case True
      with Raised Suc.prems show ?thesis by (simp add: API_MAX_RETRY_TIMES_def)
    next
      case False
      with Raised Suc.prems
      have "get_openai_model_ans fuel api (Suc n) (s + API_RETRY_SLEEP_TIME) = Some r"
        by (simp add: API_MAX_RETRY_TIMES_def)
      then have "get_openai_model_ans (Suc fuel) api (Suc n) (s + API_RETRY_SLEEP_TIME) = Some r"
        by (rule Suc.IH)
      with Raised False show ?thesis by (simp add: API_MAX_RETRY_TIMES_def)
    qed
  qed
qed

lemma get_openai_model_ans_completes:
  assumes "\<forall>j < k. \<exists>e. api (n + j) = Raised e \<and> \<not> context_overflow e"
    and "api (n + k) = Completed c"
  shows "get_openai_model_ans (Suc k + extra) api n s =
           Some \<lparr>payload = c, api_calls = Suc (n + k), slept_seconds = s + k * API_RETRY_SLEEP_TIME\<rparr>"
  using assms
proof (induction k arbitrary: n s)
  case 0
  then show ?case by simp
next
  case (Suc k)
  from Suc.prems(1) obtain e where e: "api n = Raised e" "\<not> context_overflow e"
    by force
  have "\<forall>j < k. \<exists>e. api (Suc n + j) = Raised e \<and> \<not> context_overflow e"
    using Suc.prems(1) by (metis Suc_less_eq add_Suc_shift)
  moreover have "api (Suc n + k) = Completed c"
    using Suc.prems(2) by simp
  ultimately have "get_openai_model_ans (Suc k + extra) api (Suc n) (s + API_RETRY_SLEEP_TIME) =
      Some \<lparr>payload = c, api_calls = Suc (Suc n + k),
            slept_seconds = s + API_RETRY_SLEEP_TIME + k * API_RETRY_SLEEP_TIME\<rparr>"
    by (rule Suc.IH)
  with e show ?case by (simp add: API_MAX_RETRY_TIMES_def)
qed

lemma get_openai_model_ans_overflow:
  "api n = Raised e \<Longrightarrow> context_overflow e \<Longrightarrow>
   get_openai_model_ans (Suc fuel) api n s = Some \<lparr>payload = None, api_calls = Suc n, slept_seconds = s\<rparr>"
  by (simp add: API_MAX_RETRY_TIMES_def)

subsection \<open>C5: the retry bound\<close>

text \<open>
  Claim C5 says that the client gives up after \<open>API_MAX_RETRY_TIMES = 10\<close> retries and
  returns the null payload.  The source resets \<open>cur_retry\<close> at the top of every iteration
  of its loop, so the test \<open>cur_retry > retry_times\<close> compares 1 with 10 and is never
  true: when every attempt raises an error that is not a context overflow, the loop has
  not returned after any number of iterations.
\<close>

theorem get_openai_model_ans_never_gives_up:
  assumes "\<forall>k. \<exists>e. api k = Raised e \<and> \<not> context_overflow e"
  shows "get_openai_model_ans fuel api n s = None"
proof (induction fuel arbitrary: n s)
  case 0
  show ?case by simp
next
  case (Suc fuel)
  from assms obtain e where "api n = Raised e" "\<not> context_overflow e"
    by blast
  with Suc.IH show ?case by (simp add: API_MAX_RETRY_TIMES_def)
qed

theorem get_openai_model_ans_never_gives_up_witness:
  "\<not> context_overflow ''Connection error.'' \<and>
   get_openai_model_ans 1000 (\<lambda>k. Raised ''Connection error.'') 0 0 = None"
  using get_openai_model_ans_never_gives_up [of "\<lambda>k. Raised ''Connection error.''" 1000 0 0]
  by (simp add: context_overflow_def)

section \<open>The tool synthesizer\<close>

subsection \<open>Sequencing\<close>

lemma err_bind_Inl [simp]: "err_bind (Inl e) f = Inl e"
  by (simp add: err_bind_def)

lemma err_bind_Inr [simp]: "err_bind (Inr v) f = f v"
  by (simp add: err_bind_def)

lemma err_bind_eq_Inr: "err_bind m f = Inr y \<longleftrightarrow> (\<exists>v. m = Inr v \<and> f v = Inr y)"
  by (cases m) simp_all

subsection \<open>A returned tool passed the test of the sandbox\<close>

lemma validation_loop_accepts:
  "validation_loop E qa gen scaled t w = Inr (Some r, w') \<Longrightarrow>
   \<exists>n cur_code call_statement reply.
      sandbox E n (JStr (final_code E cur_code call_statement)) = Inr reply \<and>
      status reply = ''Success'' \<and> str_in (answer qa) (stdout reply) \<and>
      data r = \<lparr>tool_document = content scaled, tool_call_statement = call_statement,
                code = cur_code, tool_call_ans = Some (stdout reply)\<rparr>"
proof (induction E qa gen scaled t w rule: validation_loop.induct)
  case (1 E qa gen scaled t w)
  from "1.prems" have lt: "t < ENV_SYNTHESIS_INNER_MAX_RETRY_TIMES"
    by (subst (asm) validation_loop.simps) (simp split: if_splits)
  show ?case
    using "1.prems" "1.IH" lt
    apply (subst (asm) validation_loop.simps)
    apply (auto simp: err_bind_eq_Inr get_code_sandbox_ans_def Let_def split: option.splits if_splits)
    apply blast
    done
qed

lemma single_env_synthesis_accepts:
  "single_env_synthesis E qa w = Inr (Some r, w') \<Longrightarrow>
   \<exists>n cur_code call_statement reply.
      sandbox E n (JStr (final_code E cur_code call_statement)) = Inr reply \<and>
      status reply = ''Success'' \<and> str_in (answer qa) (stdout reply) \<and>
      tool_call_statement (data r) = call_statement \<and> code (data r) = cur_code \<and>
      tool_call_ans (data r) = Some (stdout reply)"
  unfolding single_env_synthesis_def
  by (auto simp: err_bind_eq_Inr split: option.splits dest!: validation_loop_accepts) fastforce

lemma synthesis_single_env_loop_accepts:
  "synthesis_single_env_loop E qa t w = Inr (Some out, w') \<Longrightarrow>
   question out = question qa \<and> answer out = answer qa \<and>
   (\<exists>n cur_code call_statement reply.
      sandbox E n (JStr (final_code E cur_code call_statement)) = Inr reply \<and>
      status reply = ''Success'' \<and> str_in (answer qa) (stdout reply) \<and>
      tool_call_statement (ans_data out) = call_statement \<and> code (ans_data out) = cur_code \<and>
      tool_call_ans (ans_data out) = Some (stdout reply))"
proof (induction E qa t w rule: synthesis_single_env_loop.induct)
  case (1 E qa t w)
  from "1.prems" have lt: "t < ENV_SYNTHESIS_OUTER_MAX_RETRY_TIMES"
    by (subst (asm) synthesis_single_env_loop.simps) (simp split: if_splits)
  from "1.prems" lt obtain ans w1 where
    run: "single_env_synthesis E qa w = Inr (ans, w1)" and
    rest: "(case ans of Some r \<Rightarrow> Inr (Some (ans_update r qa), w1)
            | None \<Rightarrow> synthesis_single_env_loop E qa (t + 1) w1) = Inr (Some out, w')"
    by (subst (asm) synthesis_single_env_loop.simps) (auto simp: err_bind_eq_Inr)
  show ?case
  proof (cases ans)
    case None
    with rest have "synthesis_single_env_loop E qa (t + 1) w1 = Inr (Some out, w')"
      by simp
    with lt None show ?thesis
      using "1.IH" by blast
  next
    case (Some r)
    with rest have out: "out = ans_update r qa" and "w' = w1"
      by simp_all
    from run Some have "single_env_synthesis E qa w = Inr (Some r, w1)"
      by simp
    from single_env_synthesis_accepts [OF this] out show ?thesis
      by (simp add: ans_update_def)
  qed
qed

subsection \<open>The pre-check of the merge engine\<close>

lemma check_entry_sound:
  assumes ok: "check_entry k v = Inr True" and k: "k \<noteq> ''wrong_info''"
    and r: "env_synthesis_result v = Some r"
  shows "\<exists>out. tool_call_ans (data r) = Some out \<and> str_in (entry_answer v) out"
proof (cases "tool_call_ans (data r)")
  case None
  with ok k r show ?thesis
    by (simp add: check_entry_def)
next
  case (Some out)
  from ok k r Some have "str_in (entry_answer v) out"
    by (auto simp: check_entry_def Let_def err_bind_eq_Inr split: if_splits)
  with Some show ?thesis by simp
qed

lemma check_env_items_sound:
  "check_env_items items = Inr True \<Longrightarrow> (u, Some v) \<in> set items \<Longrightarrow> u \<noteq> ''wrong_info'' \<Longrightarrow>
   env_synthesis_result v = Some r \<Longrightarrow>
   \<exists>out. tool_call_ans (data r) = Some out \<and> str_in (entry_answer v) out"
proof (induction items rule: check_env_items.induct)
  case 1
  then show ?case by simp
next
  case (2 k rest)
  then show ?case by simp
next
  case (3 k v' rest)
  from "3.prems"(1) have here: "check_entry k v' = Inr True" and rest: "check_env_items rest = Inr True"
    by (auto simp: err_bind_eq_Inr split: if_splits)
  show ?case
  proof (cases "(u, Some v) = (k, Some v')")
    case True
    with here "3.prems" show ?thesis
      using check_entry_sound by blast
  next
    case False
    with "3.prems" have "(u, Some v) \<in> set rest"
      by auto
    with "3.IH" here rest "3.prems" show ?thesis
      by simp
  qed
qed

subsection \<open>Running the definitions\<close>

lemmas eval_defs = synthesis_single_env_def synthesis_single_env_loop.simps single_env_synthesis_def
  validation_loop.simps tool_deployment_def tool_deployment_loop.simps call_statement_generation_def
  tool_document_complexity_scaling_def tool_document_generation_def llm_stage_def llm_stage_loop.simps
  has_keys_def parse_ans_def ask_llm_def get_code_sandbox_ans_def logger_info_def fmt_def final_code_def
  ans_update_def strip_def is_space_def py_split_def Let_def suffix_to_prefix
  ENV_SYNTHESIS_INNER_MAX_RETRY_TIMES_def ENV_SYNTHESIS_OUTER_MAX_RETRY_TIMES_def
  outside0_def qa0_def world0_def llm0_def decode0_def sandbox0_def


subsection \<open>C1: the answer is a substring of the recorded stdout\<close>

text \<open>
  Claim C1.  A tool that \<open>synthesis_single_env\<close> returns was accepted by a sandbox run of
  \<open>code + "\\nprint(" + call + ")"\<close> with status \<open>Success\<close> whose stdout holds the
  expected answer, and that stdout is the \<open>tool_call_ans\<close> of the entry that
  \<open>env_synthesis\<close> stores (without \<open>merge_flag\<close>).  And when \<open>_check_env\<close> returns
  \<open>True\<close> for a record, every non-null entry of its \<open>env_result\<close> under a key other than
  \<open>wrong_info\<close> has its answer as a substring of its \<open>tool_call_ans\<close>; so the pre-check
  does not return \<open>True\<close> for a record that violates the condition.
\<close>

theorem env_result_answer_in_tool_call_ans:
  "(synthesis_single_env E qa w = Inr (Some out, w') \<longrightarrow>
      (\<exists>n reply.
          sandbox E n (JStr (final_code E (code (ans_data out)) (tool_call_statement (ans_data out)))) = Inr reply \<and>
          status reply = ''Success'' \<and> str_in (answer qa) (stdout reply) \<and>
          tool_call_ans (ans_data out) = Some (stdout reply) \<and>
          env_synthesis_result (env_entry_of out) = Some \<lparr>data = ans_data out, extra_info = ans_extra_info out\<rparr> \<and>
          entry_answer (env_entry_of out) = answer qa \<and>
          \<not> merge_flag (env_entry_of out) \<and>
          str_in (entry_answer (env_entry_of out)) (stdout reply))) \<and>
   (check_env d = Inr True \<and> env_result d = Some items \<and> (u, Some v) \<in> set items \<and>
    u \<noteq> ''wrong_info'' \<and> env_synthesis_result v = Some r \<longrightarrow>
      (\<exists>stdout_text. tool_call_ans (data r) = Some stdout_text \<and> str_in (entry_answer v) stdout_text))"
proof (intro conjI impI)
  assume "synthesis_single_env E qa w = Inr (Some out, w')"
  then have "synthesis_single_env_loop E qa 0 w = Inr (Some out, w')"
    by (simp add: synthesis_single_env_def)
  from synthesis_single_env_loop_accepts [OF this]
  show "\<exists>n reply.
          sandbox E n (JStr (final_code E (code (ans_data out)) (tool_call_statement (ans_data out)))) = Inr reply \<and>
          status reply = ''Success'' \<and> str_in (answer qa) (stdout reply) \<and>
          tool_call_ans (ans_data out) = Some (stdout reply) \<and>
          env_synthesis_result (env_entry_of out) = Some \<lparr>data = ans_data out, extra_info = ans_extra_info out\<rparr> \<and>
          entry_answer (env_entry_of out) = answer qa \<and>
          \<not> merge_flag (env_entry_of out) \<and>
          str_in (entry_answer (env_entry_of out)) (stdout reply)"
    by (auto simp: env_entry_of_def)
next
  assume a: "check_env d = Inr True \<and> env_result d = Some items \<and> (u, Some v) \<in> set items \<and>
    u \<noteq> ''wrong_info'' \<and> env_synthesis_result v = Some r"
  then have "check_env_items items = Inr True"
    by (auto simp: check_env_def)
  with a show "\<exists>stdout_text. tool_call_ans (data r) = Some stdout_text \<and> str_in (entry_answer v) stdout_text"
    using check_env_items_sound by blast
qed

lemma run0: "\<exists>out w'. synthesis_single_env (outside0 ''84'') qa0 world0 = Inr (Some out, w')"
  by (simp add: eval_defs)

theorem env_result_answer_in_tool_call_ans_witness:
  "(\<exists>out w'. synthesis_single_env (outside0 ''84'') qa0 world0 = Inr (Some out, w') \<and>
      tool_call_ans (ans_data out) = Some ''84'' \<and> str_in (entry_answer (env_entry_of out)) ''84'') \<and>
   check_env record0 = Inr True \<and> env_result record0 = Some [(''1'', Some entry0), (''2'', None)] \<and>
   (\<exists>r. env_synthesis_result entry0 = Some r \<and> tool_call_ans (data r) = Some ''84'') \<and>
   str_in (entry_answer entry0) ''84''"
proof -
  from run0 obtain out w' where run: "synthesis_single_env (outside0 ''84'') qa0 world0 = Inr (Some out, w')"
    by blast
  from env_result_answer_in_tool_call_ans [of "outside0 ''84''" qa0 world0 out w'] run
  obtain n reply where
    "sandbox (outside0 ''84'') n (JStr (final_code (outside0 ''84'') (code (ans_data out)) (tool_call_statement (ans_data out)))) = Inr reply"
    "tool_call_ans (ans_data out) = Some (stdout reply)"
    "str_in (entry_answer (env_entry_of out)) (stdout reply)"
    by blast
  then have "tool_call_ans (ans_data out) = Some ''84'' \<and> str_in (entry_answer (env_entry_of out)) ''84''"
    by (auto simp: outside0_def sandbox0_def)
  with run have first: "\<exists>out w'. synthesis_single_env (outside0 ''84'') qa0 world0 = Inr (Some out, w') \<and>
      tool_call_ans (ans_data out) = Some ''84'' \<and> str_in (entry_answer (env_entry_of out)) ''84''"
    by blast
  have chk: "check_env record0 = Inr True"
    by (simp add: check_env_def check_entry_def record0_def entry0_def)
  moreover have "env_result record0 = Some [(''1'', Some entry0), (''2'', None)]"
    by (simp add: record0_def)
  moreover have "\<exists>r. env_synthesis_result entry0 = Some r \<and> tool_call_ans (data r) = Some ''84''"
    by (simp add: entry0_def)
  moreover have "str_in (entry_answer entry0) ''84''"
    by (simp add: entry0_def)
  ultimately show ?thesis
    using first by blast
qed

subsection \<open>C9: a stage on a null or unparseable reply\<close>

lemma llm_stage_null:
  assumes "llm E (length (prompts w)) p = None"
  shows "llm_stage E line p key w = Inl TypeError"
  using assms
  by (simp add: llm_stage_def llm_stage_loop.simps [of E p key 0] ask_llm_def logger_info_def
      parse_ans_def ENV_SYNTHESIS_INNER_MAX_RETRY_TIMES_def)

lemma llm_stage_unparsed:
  assumes "parse_ans E (llm E (length (prompts w)) p) = Inr JNull"
  shows "llm_stage E line p key w = Inl TypeError"
  using assms
  by (simp add: llm_stage_def llm_stage_loop.simps [of E p key 0] ask_llm_def logger_info_def
      has_keys_def ENV_SYNTHESIS_INNER_MAX_RETRY_TIMES_def)

lemma tool_deployment_null:
  assumes "llm E (length (prompts w)) (PROMPT_TOOL_DEPLOYMENT d qa c) = None"
  shows "tool_deployment E d qa c w = Inl TypeError"
  using assms
  by (simp add: tool_deployment_def tool_deployment_loop.simps [of E _ 0] ask_llm_def logger_info_def
      parse_ans_def ENV_SYNTHESIS_INNER_MAX_RETRY_TIMES_def)

text \<open>
  Claim C9 says that each stage returns its payload or \<open>None\<close> within five attempts
  and never raises, a parse failure counting as one failed attempt.  In the source a null
  reply makes \<open>parse_ans\<close> raise TypeError in every stage, and in stages 1 to 3 a reply
  that does not parse makes \<open>key in output_parsed\<close> raise TypeError on \<open>None\<close>; only
  stage 4 tests \<open>output_parsed is None\<close> first and counts the attempt as failed.
\<close>

theorem synthesizer_stages_raise:
  "(llm E (length (prompts w)) (PROMPT_TOOL_DOCUMENT_GENERATION q) = None \<longrightarrow>
      tool_document_generation E q w = Inl TypeError) \<and>
   (llm E (length (prompts w)) (PROMPT_TOOL_DOCUMENT_COMPLEXITY_SCALING d) = None \<longrightarrow>
      tool_document_complexity_scaling E d w = Inl TypeError) \<and>
   (llm E (length (prompts w)) (PROMPT_CALL_STATEMENT q d) = None \<longrightarrow>
      call_statement_generation E q d w = Inl TypeError) \<and>
   (llm E (length (prompts w)) (PROMPT_TOOL_DEPLOYMENT d qa c) = None \<longrightarrow>
      tool_deployment E d qa c w = Inl TypeError) \<and>
   (parse_ans E (llm E (length (prompts w)) (PROMPT_TOOL_DOCUMENT_GENERATION q)) = Inr JNull \<longrightarrow>
      tool_document_generation E q w = Inl TypeError) \<and>
   (parse_ans E (llm E (length (prompts w)) (PROMPT_TOOL_DOCUMENT_COMPLEXITY_SCALING d)) = Inr JNull \<longrightarrow>
      tool_document_complexity_scaling E d w = Inl TypeError) \<and>
   (parse_ans E (llm E (length (prompts w)) (PROMPT_CALL_STATEMENT q d)) = Inr JNull \<longrightarrow>
      call_statement_generation E q d w = Inl TypeError)"
  by (simp add: tool_document_generation_def tool_document_complexity_scaling_def
      call_statement_generation_def llm_stage_null llm_stage_unparsed tool_deployment_null)

theorem synthesizer_stages_raise_witness:
  "llm outside_null (length (prompts world0)) (PROMPT_TOOL_DOCUMENT_GENERATION (question qa0)) = None \<and>
   tool_document_generation outside_null (question qa0) world0 = Inl TypeError \<and>
   tool_document_complexity_scaling outside_null JNull world0 = Inl TypeError \<and>
   call_statement_generation outside_null (question qa0) JNull world0 = Inl TypeError \<and>
   tool_deployment outside_null JNull qa0 JNull world0 = Inl TypeError \<and>
   parse_ans outside_refusal (Some ''I cannot help with that.'') = Inr JNull \<and>
   tool_document_generation outside_refusal (question qa0) world0 = Inl TypeError \<and>
   tool_document_complexity_scaling outside_refusal JNull world0 = Inl TypeError \<and>
   call_statement_generation outside_refusal (question qa0) JNull world0 = Inl TypeError"
proof -
  have null: "llm outside_null n p = None" for n p
    by (simp add: outside_null_def)
  have refusal: "parse_ans outside_refusal (llm outside_refusal n p) = Inr JNull" for n p
    by (simp add: outside_refusal_def parse_ans_def decode0_def Let_def suffix_to_prefix)
  have said: "llm outside_refusal n p = Some ''I cannot help with that.''" for n p
    by (simp add: outside_refusal_def)
  show ?thesis
    using synthesizer_stages_raise [of outside_null world0 "question qa0" JNull qa0 JNull]
      synthesizer_stages_raise [of outside_refusal world0 "question qa0" JNull qa0 JNull]
      null refusal said
    by simp
qed

text \<open>Stage 4 on the same unparseable replies: five attempts, then \<open>None\<close>.\<close>

lemma tool_deployment_unparsed:
  "tool_deployment outside_refusal JNull qa0 JNull world0 =
     Inr (None, \<lparr>prompts = replicate 5 (PROMPT_TOOL_DEPLOYMENT JNull qa0 JNull), posts = [],
                 logged = [Step_4_Tool_Deployment]\<rparr>)"
  by (simp add: tool_deployment_def tool_deployment_loop.simps ask_llm_def logger_info_def
      outside_refusal_def parse_ans_def decode0_def Let_def suffix_to_prefix world0_def
      ENV_SYNTHESIS_INNER_MAX_RETRY_TIMES_def numeral_eq_Suc)

subsection \<open>What a run adds to the log and to the prompts\<close>

lemma llm_stage_loop_effect:
  "llm_stage_loop E p key t w = Inr (r, w') \<Longrightarrow>
   logged w' = logged w \<and> posts w' = posts w \<and>
   (\<exists>ps. prompts w' = prompts w @ ps \<and> set ps \<subseteq> {p})"
proof (induction E p key t w rule: llm_stage_loop.induct)
  case (1 E p key t w)
  note unf = "1.prems" [unfolded llm_stage_loop.simps [of E p key t w]]
  show ?case
  proof (cases "t < ENV_SYNTHESIS_INNER_MAX_RETRY_TIMES")
    case False
    with unf show ?thesis by simp
  next
    case True
    define w1 where "w1 = w\<lparr>prompts := prompts w @ [p]\<rparr>"
    have ask: "ask_llm E p w = (llm E (length (prompts w)) p, w1)"
      by (simp add: ask_llm_def w1_def)
    from unf True ask obtain parsed ok where
      ok: "has_keys key parsed = Inr ok" and
      rest: "(if ok then Inr (Some parsed, w1) else llm_stage_loop E p key (t + 1) w1) = Inr (r, w')"
      by (auto simp: err_bind_eq_Inr)
    show ?thesis
    proof (cases ok)
      case True
      with rest show ?thesis by (auto simp: w1_def)
    next
      case False
      with rest have "llm_stage_loop E p key (t + 1) w1 = Inr (r, w')"
        by simp
      from "1.IH" [OF True ask [symmetric] False this]
      show ?thesis by (auto simp: w1_def)
    qed
  qed
qed

lemma llm_stage_effect:
  "llm_stage E line p key w = Inr (r, w') \<Longrightarrow>
   logged w' = logged w @ [line] \<and> posts w' = posts w \<and>
   (\<exists>ps. prompts w' = prompts w @ ps \<and> set ps \<subseteq> {p})"
  unfolding llm_stage_def
  by (auto simp: err_bind_eq_Inr logger_info_def split: option.splits dest!: llm_stage_loop_effect)

lemma tool_deployment_loop_effect:
  "tool_deployment_loop E p t w = Inr (r, w') \<Longrightarrow>
   logged w' = logged w \<and> (\<exists>ps. prompts w' = prompts w @ ps \<and> set ps \<subseteq> {p})"
proof (induction E p t w rule: tool_deployment_loop.induct)
  case (1 E p t w)
  note unf = "1.prems" [unfolded tool_deployment_loop.simps [of E p t w]]
  show ?case
  proof (cases "t < ENV_SYNTHESIS_INNER_MAX_RETRY_TIMES")
    case False
    with unf show ?thesis by simp
  next
    case True
    define w1 where "w1 = w\<lparr>prompts := prompts w @ [p]\<rparr>"
    have ask: "ask_llm E p w = (llm E (length (prompts w)) p, w1)"
      by (simp add: ask_llm_def w1_def)
    have again: "logged w' = logged w \<and> (\<exists>ps. prompts w' = prompts w @ ps \<and> set ps \<subseteq> {p})"
      if "logged w' = logged v \<and> (\<exists>ps. prompts w' = prompts v @ ps \<and> set ps \<subseteq> {p})"
        and "logged v = logged w" and "prompts v = prompts w1" for v
      using that by (auto simp: w1_def)
    from unf True ask obtain parsed where
      parsed: "parse_ans E (llm E (length (prompts w)) p) = Inr parsed" and
      rest: "(if parsed = JNull then tool_deployment_loop E p (t + 1) w1
              else err_bind (has_keys ''function'' parsed) (\<lambda>ok.
                 if \<not> ok then tool_deployment_loop E p (t + 1) w1
                 else err_bind (py_getitem parsed ''function'') (\<lambda>cur_code.
                   err_bind (get_code_sandbox_ans E cur_code w1) (\<lambda>(code_ans, w2).
                     if status code_ans = ''Failed''
                     then tool_deployment_loop E p (t + 1) w2
                     else Inr (Some parsed, w2))))) = Inr (r, w')"
      by (auto simp: err_bind_eq_Inr)
    show ?thesis
    proof (cases "parsed = JNull")
      case null: True
      with rest have "tool_deployment_loop E p (t + 1) w1 = Inr (r, w')"
        by simp
      from "1.IH"(1) [OF True ask [symmetric] null this] show ?thesis
        by (intro again [of w1]) (simp_all add: w1_def)
    next
      case notnull: False
      with rest obtain ok where ok: "has_keys ''function'' parsed = Inr ok" and
        rest2: "(if \<not> ok then tool_deployment_loop E p (t + 1) w1
                 else err_bind (py_getitem parsed ''function'') (\<lambda>cur_code.
                   err_bind (get_code_sandbox_ans E cur_code w1) (\<lambda>(code_ans, w2).
                     if status code_ans = ''Failed''
                     then tool_deployment_loop E p (t + 1) w2
                     else Inr (Some parsed, w2)))) = Inr (r, w')"
        by (auto simp: err_bind_eq_Inr)
      show ?thesis
      proof (cases ok)
        case nok: False
        with rest2 have "tool_deployment_loop E p (t + 1) w1 = Inr (r, w')"
          by simp
        from "1.IH"(2) [OF True ask [symmetric] notnull _ this] nok show ?thesis
          by (intro again [of w1]) (simp_all add: w1_def)
      next
        case yes: True
        with rest2 obtain cur_code code_ans where
          cc: "py_getitem parsed ''function'' = Inr cur_code" and
          sb: "sandbox E (length (posts w1)) cur_code = Inr code_ans" and
          rest3: "(if status code_ans = ''Failed''
                   then tool_deployment_loop E p (t + 1) (w1\<lparr>posts := posts w1 @ [cur_code]\<rparr>)
                   else Inr (Some parsed, w1\<lparr>posts := posts w1 @ [cur_code]\<rparr>)) = Inr (r, w')"
          by (auto simp: err_bind_eq_Inr get_code_sandbox_ans_def)
        define w2 where "w2 = w1\<lparr>posts := posts w1 @ [cur_code]\<rparr>"
        have gc: "get_code_sandbox_ans E cur_code w1 = Inr (code_ans, w2)"
          using sb by (simp add: get_code_sandbox_ans_def w2_def)
        show ?thesis
        proof (cases "status code_ans = ''Failed''")
          case failed: True
          with rest3 have "tool_deployment_loop E p (t + 1) w2 = Inr (r, w')"
            by (simp add: w2_def)
          from "1.IH"(3) [OF True ask [symmetric] notnull _ failed this] yes gc show ?thesis
            by (intro again [of w2]) (simp_all add: w1_def w2_def)
        next
          case False
          with rest3 show ?thesis
            by (auto simp: w1_def)
        qed
      qed
    qed
  qed
qed


lemma tool_deployment_effect:
  "tool_deployment E d qa c w = Inr (r, w') \<Longrightarrow>
   logged w' = logged w @ [Step_4_Tool_Deployment] \<and>
   (\<exists>ps. prompts w' = prompts w @ ps \<and> set ps \<subseteq> {PROMPT_TOOL_DEPLOYMENT d qa c})"
  unfolding tool_deployment_def
  by (auto simp: err_bind_eq_Inr logger_info_def split: option.splits dest!: tool_deployment_loop_effect)

lemma call_statement_generation_effect:
  "call_statement_generation E q d w = Inr (r, w') \<Longrightarrow>
   logged w' = logged w @ [Step_3_Call_Statement_Generation] \<and> posts w' = posts w \<and>
   (\<exists>ps. prompts w' = prompts w @ ps \<and> set ps \<subseteq> {PROMPT_CALL_STATEMENT q d})"
  unfolding call_statement_generation_def by (rule llm_stage_effect)

text \<open>One iteration of the validation loop, when stages 3 and 4 gave their results.\<close>

lemma validation_loop_iteration:
  assumes "t < ENV_SYNTHESIS_INNER_MAX_RETRY_TIMES"
    and "call_statement_generation E (question qa) (content scaled) w = Inr (Some call_result, w1)"
    and "tool_deployment E (content scaled) qa (content call_result) w1 = Inr (Some dep_result, w2)"
    and "sandbox E (length (posts w2)) (JStr (final_code E (content dep_result) (content call_result))) = Inr reply"
  shows "validation_loop E qa gen scaled t w =
     (if status reply = ''Success'' \<and> str_in (answer qa) (stdout reply)
      then Inr (Some \<lparr>data = \<lparr>tool_document = content scaled,
                                  tool_call_statement = content call_result,
                                  code = content dep_result,
                                  tool_call_ans = Some (stdout reply)\<rparr>,
                        extra_info = \<lparr>tool_document_generation_result = Some gen,
                                       tool_document_complexity_scaling_result = Some scaled,
                                       tool_call_statement_result = Some call_result,
                                       tool_deployment_result = Some dep_result\<rparr>\<rparr>,
                w2\<lparr>posts := posts w2 @ [JStr (final_code E (content dep_result) (content call_result))]\<rparr>)
      else validation_loop E qa gen scaled (t + 1)
             (w2\<lparr>posts := posts w2 @ [JStr (final_code E (content dep_result) (content call_result))]\<rparr>))"
  using assms
  by (subst validation_loop.simps) (simp add: get_code_sandbox_ans_def Let_def)

lemma validation_loop_effect:
  "validation_loop E qa gen scaled t w = Inr (r, w') \<Longrightarrow>
   \<exists>ps l. prompts w' = prompts w @ ps \<and>
     (\<forall>p \<in> set ps. p = PROMPT_CALL_STATEMENT (question qa) (content scaled) \<or>
                     (\<exists>c. p = PROMPT_TOOL_DEPLOYMENT (content scaled) qa c)) \<and>
     logged w' = logged w @ l \<and>
     set l \<subseteq> {Step_3_Call_Statement_Generation, Step_4_Tool_Deployment} \<and>
     count_list l Step_3_Call_Statement_Generation \<le> ENV_SYNTHESIS_INNER_MAX_RETRY_TIMES - t"
proof (induction E qa gen scaled t w rule: validation_loop.induct)
  case (1 E qa gen scaled t w)
  note unf = "1.prems" [unfolded validation_loop.simps [of E qa gen scaled t w] Let_def]
  let ?good = "\<lambda>p. p = PROMPT_CALL_STATEMENT (question qa) (content scaled) \<or>
                     (\<exists>c. p = PROMPT_TOOL_DEPLOYMENT (content scaled) qa c)"
  let ?S = "{Step_3_Call_Statement_Generation, Step_4_Tool_Deployment}"
  show ?case
  proof (cases "t < ENV_SYNTHESIS_INNER_MAX_RETRY_TIMES")
    case False
    with unf show ?thesis by simp
  next
    case True
    have later: ?thesis
      if ih: "\<exists>ps l. prompts w' = prompts v @ ps \<and> (\<forall>p \<in> set ps. ?good p) \<and>
                logged w' = logged v @ l \<and> set l \<subseteq> ?S \<and>
                count_list l Step_3_Call_Statement_Generation \<le> ENV_SYNTHESIS_INNER_MAX_RETRY_TIMES - (t + 1)"
        and pv: "prompts v = prompts w @ ps0" "\<forall>p \<in> set ps0. ?good p"
        and lv: "logged v = logged w @ l0" "set l0 \<subseteq> ?S" "count_list l0 Step_3_Call_Statement_Generation = 1"
      for v ps0 l0
    proof -
      from ih obtain ps l where
        "prompts w' = prompts v @ ps" "\<forall>p \<in> set ps. ?good p" "logged w' = logged v @ l" "set l \<subseteq> ?S"
        "count_list l Step_3_Call_Statement_Generation \<le> ENV_SYNTHESIS_INNER_MAX_RETRY_TIMES - (t + 1)"
        by blast
      with pv lv True have
        "prompts w' = prompts w @ (ps0 @ ps)" "\<forall>p \<in> set (ps0 @ ps). ?good p"
        "logged w' = logged w @ (l0 @ l)" "set (l0 @ l) \<subseteq> ?S"
        "count_list (l0 @ l) Step_3_Call_Statement_Generation \<le> ENV_SYNTHESIS_INNER_MAX_RETRY_TIMES - t"
        by auto
      then show ?thesis by blast
    qed
    have now: ?thesis
      if "prompts w' = prompts w @ ps0" "\<forall>p \<in> set ps0. ?good p"
        "logged w' = logged w @ l0" "set l0 \<subseteq> ?S" "count_list l0 Step_3_Call_Statement_Generation = 1"
      for ps0 l0
    proof -
      from that True have
        "count_list l0 Step_3_Call_Statement_Generation \<le> ENV_SYNTHESIS_INNER_MAX_RETRY_TIMES - t"
        by simp
      with that show ?thesis by blast
    qed
    from unf True obtain stmt w1 where
      s3: "call_statement_generation E (question qa) (content scaled) w = Inr (stmt, w1)" and
      rest: "(case stmt of
                None \<Rightarrow> validation_loop E qa gen scaled (t + 1) w1
              | Some call_result \<Rightarrow>
                  err_bind (tool_deployment E (content scaled) qa (content call_result) w1)
                    (\<lambda>(dep, w2).
                       case dep of
                         None \<Rightarrow> validation_loop E qa gen scaled (t + 1) w2
                       | Some dep_result \<Rightarrow>
                           err_bind (get_code_sandbox_ans E (JStr (final_code E (content dep_result) (content call_result))) w2)
                             (\<lambda>(call_ans, w3).
                                if status call_ans = ''Success'' \<and> str_in (answer qa) (stdout call_ans)
                                then Inr (Some
                                  \<lparr>data = \<lparr>tool_document = content scaled,
                                            tool_call_statement = content call_result,
                                            code = content dep_result,
                                            tool_call_ans = Some (stdout call_ans)\<rparr>,
                                   extra_info = \<lparr>tool_document_generation_result = Some gen,
                                                 tool_document_complexity_scaling_result = Some scaled,
                                                 tool_call_statement_result = Some call_result,
                                                 tool_deployment_result = Some dep_result\<rparr>\<rparr>, w3)
                                else validation_loop E qa gen scaled (t + 1) w3))) = Inr (r, w')"
      by (auto simp: err_bind_eq_Inr Let_def)
    from call_statement_generation_effect [OF s3] obtain ps3 where
      e3: "logged w1 = logged w @ [Step_3_Call_Statement_Generation]"
        "prompts w1 = prompts w @ ps3" "\<forall>p \<in> set ps3. ?good p"
      by auto
    show ?thesis
    proof (cases stmt)
      case None
      with rest have "validation_loop E qa gen scaled (t + 1) w1 = Inr (r, w')"
        by simp
      from "1.IH"(1) [OF True None this] e3 show ?thesis
        by (intro later [of w1 ps3 "[Step_3_Call_Statement_Generation]"]) simp_all
    next
      case (Some call_result)
      with rest obtain dep w2 where
        s4: "tool_deployment E (content scaled) qa (content call_result) w1 = Inr (dep, w2)" and
        rest2: "(case dep of
                   None \<Rightarrow> validation_loop E qa gen scaled (t + 1) w2
                 | Some dep_result \<Rightarrow>
                     err_bind (get_code_sandbox_ans E (JStr (final_code E (content dep_result) (content call_result))) w2)
                       (\<lambda>(call_ans, w3).
                          if status call_ans = ''Success'' \<and> str_in (answer qa) (stdout call_ans)
                          then Inr (Some
                            \<lparr>data = \<lparr>tool_document = content scaled,
                                      tool_call_statement = content call_result,
                                      code = content dep_result,
                                      tool_call_ans = Some (stdout call_ans)\<rparr>,
                             extra_info = \<lparr>tool_document_generation_result = Some gen,
                                           tool_document_complexity_scaling_result = Some scaled,
                                           tool_call_statement_result = Some call_result,
                                           tool_deployment_result = Some dep_result\<rparr>\<rparr>, w3)
                          else validation_loop E qa gen scaled (t + 1) w3)) = Inr (r, w')"
        by (auto simp: err_bind_eq_Inr)
      from tool_deployment_effect [OF s4] obtain ps' where
        e4': "logged w2 = logged w1 @ [Step_4_Tool_Deployment]" "prompts w2 = prompts w1 @ ps'"
          "set ps' \<subseteq> {PROMPT_TOOL_DEPLOYMENT (content scaled) qa (content call_result)}"
        by blast
      define ps4 where "ps4 = ps3 @ ps'"
      have e4: "logged w2 = logged w @ [Step_3_Call_Statement_Generation, Step_4_Tool_Deployment]"
          "prompts w2 = prompts w @ ps4" "\<forall>p \<in> set ps4. ?good p"
        using e3 e4' by (auto simp: ps4_def)
      have l4: "set [Step_3_Call_Statement_Generation, Step_4_Tool_Deployment] \<subseteq> ?S"
        "count_list [Step_3_Call_Statement_Generation, Step_4_Tool_Deployment] Step_3_Call_Statement_Generation = 1"
        by simp_all
      show ?thesis
      proof (cases dep)
        case None
        with rest2 have "validation_loop E qa gen scaled (t + 1) w2 = Inr (r, w')"
          by simp
        from "1.IH"(2) [OF True Some None this] e4 l4 show ?thesis
          by (intro later [of w2 ps4 "[Step_3_Call_Statement_Generation, Step_4_Tool_Deployment]"])
        next
        case dep: (Some dep_result)
        define w3 where "w3 = w2\<lparr>posts := posts w2 @ [JStr (final_code E (content dep_result) (content call_result))]\<rparr>"
        from rest2 dep obtain call_ans where
          sb: "sandbox E (length (posts w2)) (JStr (final_code E (content dep_result) (content call_result))) = Inr call_ans"
          by (auto simp: err_bind_eq_Inr get_code_sandbox_ans_def)
        with rest2 dep have
          rest3: "(if status call_ans = ''Success'' \<and> str_in (answer qa) (stdout call_ans)
                   then Inr (Some
                            \<lparr>data = \<lparr>tool_document = content scaled,
                                      tool_call_statement = content call_result,
                                      code = content dep_result,
                                      tool_call_ans = Some (stdout call_ans)\<rparr>,
                             extra_info = \<lparr>tool_document_generation_result = Some gen,
                                           tool_document_complexity_scaling_result = Some scaled,
                                           tool_call_statement_result = Some call_result,
                                           tool_deployment_result = Some dep_result\<rparr>\<rparr>, w3)
                   else validation_loop E qa gen scaled (t + 1) w3) = Inr (r, w')"
          by (auto simp: get_code_sandbox_ans_def w3_def split: if_splits)
        have e5: "logged w3 = logged w @ [Step_3_Call_Statement_Generation, Step_4_Tool_Deployment]"
          "prompts w3 = prompts w @ ps4"
          using e4 by (simp_all add: w3_def)
        show ?thesis
        proof (cases "status call_ans = ''Success'' \<and> str_in (answer qa) (stdout call_ans)")
          case True
          with rest3 have "w' = w3" by simp
          with e5 e4 l4 show ?thesis
            by (intro now [of ps4 "[Step_3_Call_Statement_Generation, Step_4_Tool_Deployment]"]) simp_all
        next
          case False
          with rest3 have "validation_loop E qa gen scaled (t + 1) w3 = Inr (r, w')"
            by simp
          from "1.IH"(3) [OF True Some dep refl refl False this] e5 e4 l4 show ?thesis
            by (intro later [of w3 ps4 "[Step_3_Call_Statement_Generation, Step_4_Tool_Deployment]"])
        qed
      qed
    qed
  qed
qed


lemma tool_document_generation_effect:
  "tool_document_generation E q w = Inr (r, w') \<Longrightarrow>
   logged w' = logged w @ [Step_1_Tool_Document_Generation]"
  unfolding tool_document_generation_def by (drule llm_stage_effect) simp

lemma tool_document_complexity_scaling_effect:
  "tool_document_complexity_scaling E d w = Inr (r, w') \<Longrightarrow>
   logged w' = logged w @ [Step_2_Tool_Document_Complexity_Scaling]"
  unfolding tool_document_complexity_scaling_def by (drule llm_stage_effect) simp

lemma single_env_synthesis_effect:
  assumes "single_env_synthesis E qa w = Inr (r, w')"
  shows "\<exists>l. logged w' = logged w @ l \<and> count_list l Step_1_Tool_Document_Generation = 1 \<and>
             count_list l Step_3_Call_Statement_Generation \<le> ENV_SYNTHESIS_INNER_MAX_RETRY_TIMES"
proof -
  from assms obtain gen w1 where
    s1: "tool_document_generation E (question qa) w = Inr (gen, w1)" and
    rest: "(case gen of
              None \<Rightarrow> Inr (None, w1)
            | Some gen_result \<Rightarrow>
                err_bind (tool_document_complexity_scaling E (content gen_result) w1)
                  (\<lambda>(scaled, w2).
                     case scaled of
                       None \<Rightarrow> Inr (None, w2)
                     | Some scaled_result \<Rightarrow> validation_loop E qa gen_result scaled_result 0 w2)) = Inr (r, w')"
    unfolding single_env_synthesis_def by (auto simp: err_bind_eq_Inr)
  note e1 = tool_document_generation_effect [OF s1]
  show ?thesis
  proof (cases gen)
    case None
    with rest e1 have "logged w' = logged w @ [Step_1_Tool_Document_Generation]"
      by simp
    then show ?thesis by force
  next
    case (Some gen_result)
    with rest obtain scaled w2 where
      s2: "tool_document_complexity_scaling E (content gen_result) w1 = Inr (scaled, w2)" and
      rest2: "(case scaled of
                 None \<Rightarrow> Inr (None, w2)
               | Some scaled_result \<Rightarrow> validation_loop E qa gen_result scaled_result 0 w2) = Inr (r, w')"
      by (auto simp: err_bind_eq_Inr)
    note e2 = tool_document_complexity_scaling_effect [OF s2]
    show ?thesis
    proof (cases scaled)
      case None
      with rest2 e1 e2 have
        "logged w' = logged w @ [Step_1_Tool_Document_Generation, Step_2_Tool_Document_Complexity_Scaling]"
        by simp
      then show ?thesis by force
    next
      case (Some scaled_result)
      with rest2 have "validation_loop E qa gen_result scaled_result 0 w2 = Inr (r, w')"
        by simp
      from validation_loop_effect [OF this] obtain l where
        l: "logged w' = logged w2 @ l"
          "set l \<subseteq> {Step_3_Call_Statement_Generation, Step_4_Tool_Deployment}"
          "count_list l Step_3_Call_Statement_Generation \<le> ENV_SYNTHESIS_INNER_MAX_RETRY_TIMES"
        by auto
      from l(2) have "Step_1_Tool_Document_Generation \<notin> set l"
        by auto
      then have "count_list l Step_1_Tool_Document_Generation = 0"
        by (simp add: count_list_0_iff)
      with l e1 e2 have
        "logged w' = logged w @ ([Step_1_Tool_Document_Generation, Step_2_Tool_Document_Complexity_Scaling] @ l)"
        "count_list ([Step_1_Tool_Document_Generation, Step_2_Tool_Document_Complexity_Scaling] @ l)
           Step_1_Tool_Document_Generation = 1"
        "count_list ([Step_1_Tool_Document_Generation, Step_2_Tool_Document_Complexity_Scaling] @ l)
           Step_3_Call_Statement_Generation \<le> ENV_SYNTHESIS_INNER_MAX_RETRY_TIMES"
        by simp_all
      then show ?thesis by blast
    qed
  qed
qed

lemma synthesis_single_env_loop_effect:
  "synthesis_single_env_loop E qa t w = Inr (r, w') \<Longrightarrow>
   \<exists>l. logged w' = logged w @ l \<and>
       count_list l Step_1_Tool_Document_Generation \<le> ENV_SYNTHESIS_OUTER_MAX_RETRY_TIMES - t \<and>
       count_list l Step_3_Call_Statement_Generation
         \<le> ENV_SYNTHESIS_INNER_MAX_RETRY_TIMES * count_list l Step_1_Tool_Document_Generation"
proof (induction E qa t w rule: synthesis_single_env_loop.induct)
  case (1 E qa t w)
  note unf = "1.prems" [unfolded synthesis_single_env_loop.simps [of E qa t w]]
  show ?case
  proof (cases "t < ENV_SYNTHESIS_OUTER_MAX_RETRY_TIMES")
    case False
    with unf show ?thesis by simp
  next
    case True
    from unf True obtain ans w1 where
      run: "single_env_synthesis E qa w = Inr (ans, w1)" and
      rest: "(case ans of Some r \<Rightarrow> Inr (Some (ans_update r qa), w1)
              | None \<Rightarrow> synthesis_single_env_loop E qa (t + 1) w1) = Inr (r, w')"
      by (auto simp: err_bind_eq_Inr)
    from single_env_synthesis_effect [OF run] obtain l1 where
      l1: "logged w1 = logged w @ l1" "count_list l1 Step_1_Tool_Document_Generation = 1"
        "count_list l1 Step_3_Call_Statement_Generation \<le> ENV_SYNTHESIS_INNER_MAX_RETRY_TIMES"
      by blast
    show ?thesis
    proof (cases ans)
      case (Some a)
      with rest have "w' = w1" by simp
      with l1 True have "logged w' = logged w @ l1"
        "count_list l1 Step_1_Tool_Document_Generation \<le> ENV_SYNTHESIS_OUTER_MAX_RETRY_TIMES - t"
        "count_list l1 Step_3_Call_Statement_Generation
           \<le> ENV_SYNTHESIS_INNER_MAX_RETRY_TIMES * count_list l1 Step_1_Tool_Document_Generation"
        by simp_all
      then show ?thesis by blast
    next
      case None
      with rest have "synthesis_single_env_loop E qa (t + 1) w1 = Inr (r, w')"
        by simp
      from "1.IH" [OF True None this] obtain l2 where
        l2: "logged w' = logged w1 @ l2"
          "count_list l2 Step_1_Tool_Document_Generation \<le> ENV_SYNTHESIS_OUTER_MAX_RETRY_TIMES - (t + 1)"
          "count_list l2 Step_3_Call_Statement_Generation
             \<le> ENV_SYNTHESIS_INNER_MAX_RETRY_TIMES * count_list l2 Step_1_Tool_Document_Generation"
        by blast
      from l1 l2 True have "logged w' = logged w @ (l1 @ l2)"
        "count_list (l1 @ l2) Step_1_Tool_Document_Generation \<le> ENV_SYNTHESIS_OUTER_MAX_RETRY_TIMES - t"
        "count_list (l1 @ l2) Step_3_Call_Statement_Generation
           \<le> ENV_SYNTHESIS_INNER_MAX_RETRY_TIMES * count_list (l1 @ l2) Step_1_Tool_Document_Generation"
        by (simp_all add: algebra_simps)
      then show ?thesis by blast
    qed
  qed
qed


subsection \<open>C3: the two retry loops of the synthesizer\<close>

text \<open>
  Claim C3, as amended.  The outer loop of \<open>synthesis_single_env\<close> runs up to
  \<open>ENV_SYNTHESIS_OUTER_MAX_RETRY_TIMES = 15\<close> times and each iteration runs the whole of
  \<open>_single_env_synthesis\<close>: stage 1 once more, then stage 2, then a validation loop of up
  to \<open>ENV_SYNTHESIS_INNER_MAX_RETRY_TIMES = 5\<close> iterations.  Only that inner loop repeats
  from stage 3 with the tool document held fixed: every prompt it sends is a stage 3 or a
  stage 4 prompt for the document of stage 2.  An iteration whose stages 3 and 4 gave a
  call and a code posts \<open>code + "\\nprint(" + call + ")"\<close> and accepts if and only if the
  status is \<open>Success\<close> and the answer is a substring of stdout, and a returned tool was so
  accepted.
\<close>

theorem synthesis_single_env_retries:
  "(synthesis_single_env E qa w = Inr (res, w') \<longrightarrow>
      (\<exists>l. logged w' = logged w @ l \<and>
           count_list l Step_1_Tool_Document_Generation \<le> ENV_SYNTHESIS_OUTER_MAX_RETRY_TIMES \<and>
           count_list l Step_3_Call_Statement_Generation
             \<le> ENV_SYNTHESIS_INNER_MAX_RETRY_TIMES * count_list l Step_1_Tool_Document_Generation)) \<and>
   (single_env_synthesis E qa w = Inr (res1, w1) \<longrightarrow>
      (\<exists>l. logged w1 = logged w @ l \<and> count_list l Step_1_Tool_Document_Generation = 1 \<and>
           count_list l Step_3_Call_Statement_Generation \<le> ENV_SYNTHESIS_INNER_MAX_RETRY_TIMES)) \<and>
   (validation_loop E qa gen scaled t w = Inr (res2, w2) \<longrightarrow>
      (\<exists>ps. prompts w2 = prompts w @ ps \<and>
            (\<forall>p \<in> set ps. p = PROMPT_CALL_STATEMENT (question qa) (content scaled) \<or>
                            (\<exists>c. p = PROMPT_TOOL_DEPLOYMENT (content scaled) qa c)))) \<and>
   (t < ENV_SYNTHESIS_INNER_MAX_RETRY_TIMES \<and>
    call_statement_generation E (question qa) (content scaled) w = Inr (Some call_result, wa) \<and>
    tool_deployment E (content scaled) qa (content call_result) wa = Inr (Some dep_result, wb) \<and>
    sandbox E (length (posts wb))
      (JStr (fmt E (content dep_result) @ [CHR 0x0A] @ ''print('' @ fmt E (content call_result) @ '')'')) = Inr reply \<longrightarrow>
      validation_loop E qa gen scaled t w =
        (if status reply = ''Success'' \<and> str_in (answer qa) (stdout reply)
         then Inr (Some \<lparr>data = \<lparr>tool_document = content scaled,
                                     tool_call_statement = content call_result,
                                     code = content dep_result,
                                     tool_call_ans = Some (stdout reply)\<rparr>,
                           extra_info = \<lparr>tool_document_generation_result = Some gen,
                                          tool_document_complexity_scaling_result = Some scaled,
                                          tool_call_statement_result = Some call_result,
                                          tool_deployment_result = Some dep_result\<rparr>\<rparr>,
                   wb\<lparr>posts := posts wb @
                        [JStr (fmt E (content dep_result) @ [CHR 0x0A] @ ''print('' @ fmt E (content call_result) @ '')'')]\<rparr>)
         else validation_loop E qa gen scaled (t + 1)
                (wb\<lparr>posts := posts wb @
                     [JStr (fmt E (content dep_result) @ [CHR 0x0A] @ ''print('' @ fmt E (content call_result) @ '')'')]\<rparr>))) \<and>
   (synthesis_single_env E qa w = Inr (Some out, w') \<longrightarrow>
      (\<exists>n reply.
          sandbox E n
            (JStr (fmt E (code (ans_data out)) @ [CHR 0x0A] @ ''print('' @
                   fmt E (tool_call_statement (ans_data out)) @ '')'')) = Inr reply \<and>
          status reply = ''Success'' \<and> str_in (answer qa) (stdout reply)))"
proof (intro conjI impI)
  assume "synthesis_single_env E qa w = Inr (res, w')"
  then have "synthesis_single_env_loop E qa 0 w = Inr (res, w')"
    by (simp add: synthesis_single_env_def)
  from synthesis_single_env_loop_effect [OF this]
  show "\<exists>l. logged w' = logged w @ l \<and>
           count_list l Step_1_Tool_Document_Generation \<le> ENV_SYNTHESIS_OUTER_MAX_RETRY_TIMES \<and>
           count_list l Step_3_Call_Statement_Generation
             \<le> ENV_SYNTHESIS_INNER_MAX_RETRY_TIMES * count_list l Step_1_Tool_Document_Generation"
    by simp
next
  assume "single_env_synthesis E qa w = Inr (res1, w1)"
  then show "\<exists>l. logged w1 = logged w @ l \<and> count_list l Step_1_Tool_Document_Generation = 1 \<and>
           count_list l Step_3_Call_Statement_Generation \<le> ENV_SYNTHESIS_INNER_MAX_RETRY_TIMES"
    by (rule single_env_synthesis_effect)
next
  assume "validation_loop E qa gen scaled t w = Inr (res2, w2)"
  from validation_loop_effect [OF this]
  show "\<exists>ps. prompts w2 = prompts w @ ps \<and>
            (\<forall>p \<in> set ps. p = PROMPT_CALL_STATEMENT (question qa) (content scaled) \<or>
                            (\<exists>c. p = PROMPT_TOOL_DEPLOYMENT (content scaled) qa c))"
    by blast
next
  assume a: "t < ENV_SYNTHESIS_INNER_MAX_RETRY_TIMES \<and>
    call_statement_generation E (question qa) (content scaled) w = Inr (Some call_result, wa) \<and>
    tool_deployment E (content scaled) qa (content call_result) wa = Inr (Some dep_result, wb) \<and>
    sandbox E (length (posts wb))
      (JStr (fmt E (content dep_result) @ [CHR 0x0A] @ ''print('' @ fmt E (content call_result) @ '')'')) = Inr reply"
  then have sb: "sandbox E (length (posts wb)) (JStr (final_code E (content dep_result) (content call_result))) = Inr reply"
    by (simp add: final_code_def)
  from a have a1: "t < ENV_SYNTHESIS_INNER_MAX_RETRY_TIMES"
    and a2: "call_statement_generation E (question qa) (content scaled) w = Inr (Some call_result, wa)"
    and a3: "tool_deployment E (content scaled) qa (content call_result) wa = Inr (Some dep_result, wb)"
    by simp_all
  have "validation_loop E qa gen scaled t w =
     (if status reply = ''Success'' \<and> str_in (answer qa) (stdout reply)
      then Inr (Some \<lparr>data = \<lparr>tool_document = content scaled,
                                  tool_call_statement = content call_result,
                                  code = content dep_result,
                                  tool_call_ans = Some (stdout reply)\<rparr>,
                        extra_info = \<lparr>tool_document_generation_result = Some gen,
                                       tool_document_complexity_scaling_result = Some scaled,
                                       tool_call_statement_result = Some call_result,
                                       tool_deployment_result = Some dep_result\<rparr>\<rparr>,
                wb\<lparr>posts := posts wb @ [JStr (final_code E (content dep_result) (content call_result))]\<rparr>)
      else validation_loop E qa gen scaled (t + 1)
             (wb\<lparr>posts := posts wb @ [JStr (final_code E (content dep_result) (content call_result))]\<rparr>))"
    by (rule validation_loop_iteration [OF a1 a2 a3 sb])
  then show "validation_loop E qa gen scaled t w =
        (if status reply = ''Success'' \<and> str_in (answer qa) (stdout reply)
         then Inr (Some \<lparr>data = \<lparr>tool_document = content scaled,
                                     tool_call_statement = content call_result,
                                     code = content dep_result,
                                     tool_call_ans = Some (stdout reply)\<rparr>,
                           extra_info = \<lparr>tool_document_generation_result = Some gen,
                                          tool_document_complexity_scaling_result = Some scaled,
                                          tool_call_statement_result = Some call_result,
                                          tool_deployment_result = Some dep_result\<rparr>\<rparr>,
                   wb\<lparr>posts := posts wb @
                        [JStr (fmt E (content dep_result) @ [CHR 0x0A] @ ''print('' @ fmt E (content call_result) @ '')'')]\<rparr>)
         else validation_loop E qa gen scaled (t + 1)
                (wb\<lparr>posts := posts wb @
                     [JStr (fmt E (content dep_result) @ [CHR 0x0A] @ ''print('' @ fmt E (content call_result) @ '')'')]\<rparr>))"
    by (simp only: final_code_def)
next
  assume "synthesis_single_env E qa w = Inr (Some out, w')"
  then have "synthesis_single_env_loop E qa 0 w = Inr (Some out, w')"
    by (simp add: synthesis_single_env_def)
  from synthesis_single_env_loop_accepts [OF this]
  show "\<exists>n reply.
          sandbox E n
            (JStr (fmt E (code (ans_data out)) @ [CHR 0x0A] @ ''print('' @
                   fmt E (tool_call_statement (ans_data out)) @ '')'')) = Inr reply \<and>
          status reply = ''Success'' \<and> str_in (answer qa) (stdout reply)"
    by (auto simp: final_code_def)
qed

lemma stages0:
  "\<exists>wa wb. call_statement_generation (outside0 ''84'') (question qa0) (content scaled0) world0 =
             Inr (Some call0, wa) \<and>
           tool_deployment (outside0 ''84'') (content scaled0) qa0 (content call0) wa = Inr (Some dep0, wb)"
  by (simp add: eval_defs scaled0_def call0_def dep0_def)

theorem synthesis_single_env_retries_witness:
  "(\<exists>res w'. synthesis_single_env (outside0 ''84'') qa0 world0 = Inr (res, w') \<and>
      (\<exists>l. logged w' = logged world0 @ l \<and>
           count_list l Step_1_Tool_Document_Generation \<le> ENV_SYNTHESIS_OUTER_MAX_RETRY_TIMES \<and>
           count_list l Step_3_Call_Statement_Generation
             \<le> ENV_SYNTHESIS_INNER_MAX_RETRY_TIMES * count_list l Step_1_Tool_Document_Generation)) \<and>
   (\<exists>res1 w1. single_env_synthesis (outside0 ''84'') qa0 world0 = Inr (res1, w1) \<and>
      (\<exists>l. logged w1 = logged world0 @ l \<and> count_list l Step_1_Tool_Document_Generation = 1 \<and>
           count_list l Step_3_Call_Statement_Generation \<le> ENV_SYNTHESIS_INNER_MAX_RETRY_TIMES)) \<and>
   (\<exists>res2 w2. validation_loop (outside0 ''84'') qa0 gen0 scaled0 0 world0 = Inr (Some res2, w2) \<and>
      tool_call_ans (data res2) = Some ''84'' \<and>
      (\<exists>ps. prompts w2 = prompts world0 @ ps \<and>
            (\<forall>p \<in> set ps. p = PROMPT_CALL_STATEMENT (question qa0) (content scaled0) \<or>
                            (\<exists>c. p = PROMPT_TOOL_DEPLOYMENT (content scaled0) qa0 c)))) \<and>
   (\<exists>out w' n reply. synthesis_single_env (outside0 ''84'') qa0 world0 = Inr (Some out, w') \<and>
      sandbox (outside0 ''84'') n
        (JStr (fmt (outside0 ''84'') (code (ans_data out)) @ [CHR 0x0A] @ ''print('' @
               fmt (outside0 ''84'') (tool_call_statement (ans_data out)) @ '')'')) = Inr reply \<and>
      status reply = ''Success'' \<and> str_in (answer qa0) (stdout reply))"
proof -
  let ?E = "outside0 ''84''"
  from run0 obtain out w' where run: "synthesis_single_env ?E qa0 world0 = Inr (Some out, w')"
    by blast
  have single: "\<exists>res1 w1. single_env_synthesis ?E qa0 world0 = Inr (res1, w1)"
    using run
    by (simp add: synthesis_single_env_def synthesis_single_env_loop.simps [of _ _ 0]
        ENV_SYNTHESIS_OUTER_MAX_RETRY_TIMES_def err_bind_eq_Inr) blast
  then obtain res1 w1 where single: "single_env_synthesis ?E qa0 world0 = Inr (res1, w1)"
    by blast
  from stages0 obtain wa wb where
    st: "call_statement_generation ?E (question qa0) (content scaled0) world0 = Inr (Some call0, wa)"
      "tool_deployment ?E (content scaled0) qa0 (content call0) wa = Inr (Some dep0, wb)"
    by blast
  define reply where "reply = \<lparr>status = ''Success'', stdout = ''84''\<rparr>"
  have sb: "sandbox ?E n c = Inr reply" for n c
    by (simp add: outside0_def sandbox0_def reply_def)
  have lt: "0 < ENV_SYNTHESIS_INNER_MAX_RETRY_TIMES"
    by (simp add: ENV_SYNTHESIS_INNER_MAX_RETRY_TIMES_def)
  note inst = synthesis_single_env_retries
    [of ?E qa0 world0 "Some out" w' res1 w1 gen0 scaled0 0 _ _ call0 wa dep0 wb reply out]
  from inst lt st sb have
    val: "validation_loop ?E qa0 gen0 scaled0 0 world0 =
      Inr (Some \<lparr>data = \<lparr>tool_document = content scaled0,
                              tool_call_statement = content call0,
                              code = content dep0,
                              tool_call_ans = Some ''84''\<rparr>,
                    extra_info = \<lparr>tool_document_generation_result = Some gen0,
                                   tool_document_complexity_scaling_result = Some scaled0,
                                   tool_call_statement_result = Some call0,
                                   tool_deployment_result = Some dep0\<rparr>\<rparr>,
            wb\<lparr>posts := posts wb @
                 [JStr (fmt ?E (content dep0) @ [CHR 0x0A] @ ''print('' @ fmt ?E (content call0) @ '')'')]\<rparr>)"
    by (simp add: reply_def qa0_def)
  note inst2 = synthesis_single_env_retries
    [of ?E qa0 world0 "Some out" w' res1 w1 gen0 scaled0 0 "Some \<lparr>data = \<lparr>tool_document = content scaled0,
                              tool_call_statement = content call0,
                              code = content dep0,
                              tool_call_ans = Some ''84''\<rparr>,
                    extra_info = \<lparr>tool_document_generation_result = Some gen0,
                                   tool_document_complexity_scaling_result = Some scaled0,
                                   tool_call_statement_result = Some call0,
                                   tool_deployment_result = Some dep0\<rparr>\<rparr>"
      "wb\<lparr>posts := posts wb @
                 [JStr (fmt ?E (content dep0) @ [CHR 0x0A] @ ''print('' @ fmt ?E (content call0) @ '')'')]\<rparr>"
      call0 wa dep0 wb reply out]
  from inst2 run single val show ?thesis
    by (auto simp del: fmt_def)
qed

text \<open>
  The claim as it was stated (the document generated once, then up to 15 iterations from
  stage 3) fails on this run: the first five validations fail, stage 1 runs a second time,
  and the sixth stage 3 prompt carries another tool document than the first five.
\<close>

lemma run1:
  "\<exists>out w. synthesis_single_env outside1 qa0 world0 = Inr (Some out, w) \<and>
     logged w =
       [Step_1_Tool_Document_Generation, Step_2_Tool_Document_Complexity_Scaling,
        Step_3_Call_Statement_Generation, Step_4_Tool_Deployment,
        Step_3_Call_Statement_Generation, Step_4_Tool_Deployment,
        Step_3_Call_Statement_Generation, Step_4_Tool_Deployment,
        Step_3_Call_Statement_Generation, Step_4_Tool_Deployment,
        Step_3_Call_Statement_Generation, Step_4_Tool_Deployment,
        Step_1_Tool_Document_Generation, Step_2_Tool_Document_Complexity_Scaling,
        Step_3_Call_Statement_Generation, Step_4_Tool_Deployment] \<and>
     List.map_filter call_statement_document (prompts w) =
       [content scaled0, content scaled0, content scaled0, content scaled0, content scaled0,
        JDict [(''name'', JStr ''times''), (''description'', JStr ''product of two numbers''),
               (''parameters'', JDict [])]]"
  by (simp add: eval_defs outside1_def llm1_def sandbox1_def decode1_def scaled0_def List.map_filter_def)

theorem synthesis_single_env_regenerates_document:
  "count_list (run_log (synthesis_single_env outside1 qa0 world0)) Step_1_Tool_Document_Generation = 2 \<and>
   count_list (run_log (synthesis_single_env outside1 qa0 world0)) Step_3_Call_Statement_Generation = 6 \<and>
   remdups (asked_documents (synthesis_single_env outside1 qa0 world0)) =
     [JDict [(''name'', JStr ''multiply''), (''description'', JStr ''product of two numbers''),
             (''parameters'', JDict [])],
      JDict [(''name'', JStr ''times''), (''description'', JStr ''product of two numbers''),
             (''parameters'', JDict [])]]"
proof -
  from run1 obtain out w where
    "synthesis_single_env outside1 qa0 world0 = Inr (Some out, w)"
    "logged w =
       [Step_1_Tool_Document_Generation, Step_2_Tool_Document_Complexity_Scaling,
        Step_3_Call_Statement_Generation, Step_4_Tool_Deployment,
        Step_3_Call_Statement_Generation, Step_4_Tool_Deployment,
        Step_3_Call_Statement_Generation, Step_4_Tool_Deployment,
        Step_3_Call_Statement_Generation, Step_4_Tool_Deployment,
        Step_3_Call_Statement_Generation, Step_4_Tool_Deployment,
        Step_1_Tool_Document_Generation, Step_2_Tool_Document_Complexity_Scaling,
        Step_3_Call_Statement_Generation, Step_4_Tool_Deployment]"
    "List.map_filter call_statement_document (prompts w) =
       [content scaled0, content scaled0, content scaled0, content scaled0, content scaled0,
        JDict [(''name'', JStr ''times''), (''description'', JStr ''product of two numbers''),
               (''parameters'', JDict [])]]"
    by blast
  then show ?thesis
    by (simp add: run_log_def asked_documents_def scaled0_def)
qed

section \<open>The cluster merge engine\<close>

subsection \<open>Running the definitions\<close>

lemmas merge_eval = merge_tools_def post_process_merge_tools_def check_env_def check_entry_def
  dict_of_def set_item_def Let_def record1_def entry0_def entry1_def cluster1_def
  partial_success_def merging_def

subsection \<open>C6: a record that post-processing rejects\<close>

text \<open>
  Claim C6 says that \<open>merge_tools\<close> returns null when post-processing finds an answer
  that is not in the recorded stdout or a test that did not pass.  In the source
  \<open>post_process_merge_tools\<close> does return \<open>None\<close> then, but \<open>merge_tools\<close> formats
  \<open>data['uuid']\<close> into a log line before it tests \<open>data is None\<close>: whenever
  post-processing rejects the record, \<open>merge_tools\<close> raises TypeError.
\<close>

theorem merge_tools_raises_after_rejection:
  assumes "env_result d = Some items"
    and "check_env d = Inr True"
    and "intent_aggregation M (d\<lparr>decomposition_trace := filter tool_necessity (decomposition_trace d)\<rparr>) = Inr found"
    and "filter (\<lambda>c. length (cluster_uuids c) > 1) found \<noteq> []"
    and "post_process_merge_tools
           (d\<lparr>clusters := found,
              aggregated_env := map (merge_single_cluster_code M (d\<lparr>clusters := found\<rparr>))
                                  (filter (\<lambda>c. length (cluster_uuids c) > 1) found)\<rparr>) = Inr None"
  shows "merge_tools M d = Inl TypeError"
  using assms by (simp add: merge_tools_def Let_def)

theorem merge_tools_raises_after_rejection_witness:
  "post_process_merge_tools
     (record1\<lparr>clusters := [cluster1],
        aggregated_env := [partial_success \<lparr>test_uuid = ''2'', test_status = ''failed'', test_stdout = Some ''98''\<rparr>]\<rparr>) = Inr None \<and>
   merge_tools (merging \<lparr>test_uuid = ''2'', test_status = ''failed'', test_stdout = Some ''98''\<rparr>) record1
     = Inl TypeError \<and>
   post_process_merge_tools
     (record1\<lparr>clusters := [cluster1],
        aggregated_env := [partial_success \<lparr>test_uuid = ''2'', test_status = ''passed'', test_stdout = Some ''98''\<rparr>]\<rparr>) = Inr None \<and>
   merge_tools (merging \<lparr>test_uuid = ''2'', test_status = ''passed'', test_stdout = Some ''98''\<rparr>) record1
     = Inl TypeError"
proof -
  have pp: "post_process_merge_tools
     (record1\<lparr>clusters := [cluster1],
        aggregated_env := [partial_success \<lparr>test_uuid = ''2'', test_status = st, test_stdout = Some ''98''\<rparr>]\<rparr>) = Inr None"
    if "st = ''failed'' \<or> st = ''passed''" for st
    using that by (auto simp: merge_eval)
  have chk: "check_env record1 = Inr True"
    by (simp add: merge_eval)
  have run: "merge_tools (merging \<lparr>test_uuid = ''2'', test_status = st, test_stdout = Some ''98''\<rparr>) record1
     = Inl TypeError" if "st = ''failed'' \<or> st = ''passed''" for st
    using merge_tools_raises_after_rejection
      [of record1 "[(''1'', Some entry0), (''2'', Some entry1)]"
          "merging \<lparr>test_uuid = ''2'', test_status = st, test_stdout = Some ''98''\<rparr>" "[cluster1]"]
      pp [OF that] chk
    by (simp add: merging_def cluster1_def record1_def)
  from pp run show ?thesis by simp
qed

text \<open>
  So the only null result of \<open>merge_tools\<close> is the one of the pre-check: once
  \<open>_check_env\<close> has returned \<open>True\<close>, \<open>merge_tools\<close> returns a record or raises.
\<close>

lemma merge_tools_never_None:
  assumes "check_env d = Inr True"
  shows "merge_tools M d \<noteq> Inr None"
  using assms
  by (auto simp: merge_tools_def Let_def err_bind_def split: option.splits sum.splits)


section \<open>The chain builder\<close>

subsection \<open>Lists of results\<close>

lemma err_all_map_Inr:
  assumes "\<And>x. x \<in> set xs \<Longrightarrow> f x = Inr (h x)"
  shows "err_all (map f xs) = Inr (map h xs)"
  using assms by (induction xs) simp_all

lemma distinct_concat_map:
  assumes "distinct xs"
    and "\<And>x. x \<in> set xs \<Longrightarrow> distinct (f x)"
    and "\<And>x y. x \<in> set xs \<Longrightarrow> y \<in> set xs \<Longrightarrow> x \<noteq> y \<Longrightarrow> set (f x) \<inter> set (f y) = {}"
  shows "distinct (concat (map f xs))"
  using assms
proof (induction xs)
  case Nil
  then show ?case by simp
next
  case (Cons x xs)
  have "set (f x) \<inter> (\<Union>y \<in> set xs. set (f y)) = {}"
    using Cons.prems(1,3) by fastforce
  moreover have "distinct (concat (map f xs))"
    using Cons by simp
  ultimately show ?case
    using Cons.prems(2) by simp
qed

subsection \<open>The search finds the walks\<close>

lemma dfs_steps:
  "path \<noteq> [] \<Longrightarrow> n < depth \<Longrightarrow>
   dfs depth g path node (int n) = Inr (map ((@) path) (steps_from g node n))"
proof (induction depth arbitrary: path node n)
  case 0
  then show ?case by simp
next
  case (Suc depth)
  show ?case
  proof (cases n)
    case 0
    with Suc.prems show ?thesis by simp
  next
    case (Suc m)
    with Suc.prems have m: "m < depth" by simp
    have each: "dfs depth g (path @ [b]) b (int m) = Inr (map ((@) (path @ [b])) (steps_from g b m))" for b
      using Suc.IH [of "path @ [b]" m b] m by simp
    have "err_all (map (\<lambda>next. dfs depth g (path @ [next]) next (int m)) (nexts g node)) =
          Inr (map (\<lambda>b. map ((@) (path @ [b])) (steps_from g b m)) (nexts g node))"
      by (rule err_all_map_Inr) (rule each)
    moreover have "(@) (path @ [b]) = (\<lambda>v. path @ b # v)" for b
      by (rule ext) simp
    then have "concat (map (\<lambda>b. map ((@) (path @ [b])) (steps_from g b m)) (nexts g node)) =
          map ((@) path) (steps_from g node (Suc m))"
      by (simp add: map_concat comp_def)
    ultimately show ?thesis
      using Suc by simp
  qed
qed

lemma set_steps_from: "set (steps_from g a n) = {w. length w = n \<and> walk_from g a w}"
proof (induction n arbitrary: a)
  case 0
  show ?case by auto
next
  case (Suc n)
  show ?case
  proof (intro set_eqI iffI)
    fix w assume "w \<in> set (steps_from g a (Suc n))"
    then obtain b v where "b \<in> set (nexts g a)" "v \<in> set (steps_from g b n)" "w = b # v"
      by auto
    with Suc.IH show "w \<in> {w. length w = Suc n \<and> walk_from g a w}"
      by simp
  next
    fix w assume "w \<in> {w. length w = Suc n \<and> walk_from g a w}"
    then obtain b v where w: "w = b # v" "length v = n" "b \<in> set (nexts g a)" "walk_from g b v"
      by (cases w) auto
    with Suc.IH have "v \<in> set (steps_from g b n)"
      by simp
    with w show "w \<in> set (steps_from g a (Suc n))"
      by auto
  qed
qed

lemma distinct_steps_from:
  assumes "\<And>a. distinct (nexts g a)"
  shows "distinct (steps_from g a n)"
proof (induction n arbitrary: a)
  case 0
  show ?case by simp
next
  case (Suc n)
  have "distinct (concat (map (\<lambda>b. map ((#) b) (steps_from g b n)) (nexts g a)))"
  proof (rule distinct_concat_map)
    show "distinct (nexts g a)" by (rule assms)
    show "distinct (map ((#) b) (steps_from g b n))" for b
      using Suc.IH by (simp add: distinct_map)
    show "set (map ((#) b) (steps_from g b n)) \<inter> set (map ((#) c) (steps_from g c n)) = {}"
      if "b \<noteq> c" for b c
      using that by auto
  qed
  then show ?case by simp
qed

lemma get_chain_steps:
  assumes "1 \<le> len" "len \<le> int depth"
  shows "get_chain depth g node len = Inr (map ((#) node) (steps_from g node (nat (len - 1))))"
proof -
  from assms have "nat (len - 1) < depth" "int (nat (len - 1)) = len - 1"
    by simp_all
  with dfs_steps [of "[node]" "nat (len - 1)" depth g node] show ?thesis
    by (simp add: get_chain_def)
qed

lemma get_chins_from_graph_steps:
  assumes "1 \<le> len" "len \<le> int depth"
  shows "get_chins_from_graph depth g len = Inr (chains_of_length g (nat (len - 1)))"
proof -
  have "err_all (map (\<lambda>node. get_chain depth g node len) (tools g)) =
        Inr (map (\<lambda>a. map ((#) a) (steps_from g a (nat (len - 1)))) (tools g))"
    by (rule err_all_map_Inr) (rule get_chain_steps [OF assms])
  then show ?thesis
    by (simp add: get_chins_from_graph_def chains_of_length_def)
qed

lemma set_chains_of_length: "set (chains_of_length g n) = {p. walk g p \<and> length p = Suc n}"
proof (intro set_eqI iffI)
  fix p assume "p \<in> set (chains_of_length g n)"
  then obtain a w where "a \<in> set (tools g)" "w \<in> set (steps_from g a n)" "p = a # w"
    by (auto simp: chains_of_length_def)
  then show "p \<in> {p. walk g p \<and> length p = Suc n}"
    by (simp add: set_steps_from)
next
  fix p assume "p \<in> {p. walk g p \<and> length p = Suc n}"
  then obtain a w where "p = a # w" "a \<in> set (tools g)" "walk_from g a w" "length w = n"
    by (cases p) auto
  then show "p \<in> set (chains_of_length g n)"
    by (auto simp: chains_of_length_def set_steps_from)
qed

lemma distinct_chains_of_length:
  assumes "distinct (tools g)" "\<And>a. distinct (nexts g a)"
  shows "distinct (chains_of_length g n)"
  unfolding chains_of_length_def
proof (rule distinct_concat_map)
  show "distinct (tools g)" by (rule assms)
  show "distinct (map ((#) a) (steps_from g a n))" for a
    using distinct_steps_from [of g a n] assms(2) by (simp add: distinct_map)
  show "set (map ((#) a) (steps_from g a n)) \<inter> set (map ((#) b) (steps_from g b n)) = {}"
    if "a \<noteq> b" for a b
    using that by auto
qed

lemma sub_chains_steps:
  assumes "1 \<le> min_length" "max_length \<le> int depth"
  shows "sub_chains depth g min_length max_length =
           Inr (concat (map (\<lambda>len. chains_of_length g (nat (len - 1))) [min_length..max_length]))"
proof -
  have "err_all (map (get_chins_from_graph depth g) [min_length..max_length]) =
        Inr (map (\<lambda>len. chains_of_length g (nat (len - 1))) [min_length..max_length])"
  proof (rule err_all_map_Inr)
    fix len assume "len \<in> set [min_length..max_length]"
    with assms have "1 \<le> len" "len \<le> int depth" by auto
    then show "get_chins_from_graph depth g len = Inr (chains_of_length g (nat (len - 1)))"
      by (rule get_chins_from_graph_steps)
  qed
  then show ?thesis by (simp add: sub_chains_def)
qed

subsection \<open>The graph that \<open>build_graph\<close> gives\<close>

lemma add_next_keeps:
  assumes "\<And>a. distinct (nexts g a)"
  shows "tools (add_next g x y) = tools g" "distinct (nexts (add_next g x y) a)"
  using assms by (auto simp: add_next_def)

lemma add_chain_keeps:
  "(\<And>a. distinct (nexts g a)) \<Longrightarrow>
   tools (add_chain g last_node names) = tools g \<and> (\<forall>a. distinct (nexts (add_chain g last_node names) a))"
proof (induction g last_node names rule: add_chain.induct)
  case (1 g last_node)
  then show ?case by simp
next
  case (2 g last_node tool_name rest)
  show ?case
  proof (cases "tool_name \<in> set (tools g)")
    case False
    with 2 show ?thesis by simp
  next
    case True
    define g' where "g' = (case last_node of None \<Rightarrow> g | Some l \<Rightarrow> add_next g l tool_name)"
    have keep: "tools g' = tools g" "\<And>a. distinct (nexts g' a)"
      using "2.prems" add_next_keeps [of g] by (auto simp: g'_def split: option.splits)
    from True have here: "\<not> tool_name \<notin> set (tools g)"
      by simp
    from "2.IH"(2) [OF here keep(2) [unfolded g'_def]] True keep(1) show ?thesis
      by (simp add: g'_def)
  qed
qed

lemma build_graph_distinct:
  "distinct (tools (build_graph tool_list detected)) \<and>
   (\<forall>a. distinct (nexts (build_graph tool_list detected) a))"
proof -
  have "tools (foldl (\<lambda>g names. add_chain g None names) g0 detected) = tools g0 \<and>
        (\<forall>a. distinct (nexts (foldl (\<lambda>g names. add_chain g None names) g0 detected) a))"
    if "\<And>a. distinct (nexts g0 a)" for g0
    using that
  proof (induction detected arbitrary: g0)
    case Nil
    then show ?case by simp
  next
    case (Cons names detected)
    from add_chain_keeps [of g0 None names] Cons.prems
    have k: "tools (add_chain g0 None names) = tools g0" "\<And>a. distinct (nexts (add_chain g0 None names) a)"
      by simp_all
    from Cons.IH [OF k(2)] k(1) show ?case by simp
  qed
  from this [of "\<lparr>tools = dict_keys tool_list, nexts = (\<lambda>a. [])\<rparr>"]
  show ?thesis by (simp add: build_graph_def dict_keys_def)
qed

lemma chains_of_length_walks:
  assumes "1 \<le> min_length" and "distinct (tools g)" and "\<And>a. distinct (nexts g a)"
  shows "set (concat (map (\<lambda>len. chains_of_length g (nat (len - 1))) [min_length..max_length])) =
           {p. walk g p \<and> min_length \<le> int (length p) \<and> int (length p) \<le> max_length} \<and>
         distinct (concat (map (\<lambda>len. chains_of_length g (nat (len - 1))) [min_length..max_length]))"
proof -
  define out where
    "out = concat (map (\<lambda>len. chains_of_length g (nat (len - 1))) [min_length..max_length])"
  have len: "length p = Suc (nat (len - 1)) \<longleftrightarrow> int (length p) = len" if "1 \<le> len" for p :: "string list" and len
    using that by auto
  have set: "set out = {p. walk g p \<and> min_length \<le> int (length p) \<and> int (length p) \<le> max_length}"
  proof (intro set_eqI iffI)
    fix p assume "p \<in> set out"
    then obtain len where "min_length \<le> len" "len \<le> max_length" "p \<in> set (chains_of_length g (nat (len - 1)))"
      by (auto simp: out_def)
    with assms(1) len [of len p]
    show "p \<in> {p. walk g p \<and> min_length \<le> int (length p) \<and> int (length p) \<le> max_length}"
      by (simp add: set_chains_of_length)
  next
    fix p assume "p \<in> {p. walk g p \<and> min_length \<le> int (length p) \<and> int (length p) \<le> max_length}"
    then have p: "walk g p" "min_length \<le> int (length p)" "int (length p) \<le> max_length"
      by simp_all
    with assms(1) len [of "int (length p)" p]
    have "p \<in> set (chains_of_length g (nat (int (length p) - 1)))"
      by (simp add: set_chains_of_length)
    with p show "p \<in> set out"
      by (auto simp: out_def)
  qed
  have "distinct out"
    unfolding out_def
  proof (rule distinct_concat_map)
    show "distinct [min_length..max_length]" by simp
    show "distinct (chains_of_length g (nat (len - 1)))" for len
      by (rule distinct_chains_of_length [OF assms(2,3)])
    show "set (chains_of_length g (nat (a - 1))) \<inter> set (chains_of_length g (nat (b - 1))) = {}"
      if "a \<in> set [min_length..max_length]" "b \<in> set [min_length..max_length]" "a \<noteq> b" for a b
      using that assms(1) by (auto simp: set_chains_of_length)
  qed
  with set show ?thesis
    by (simp add: out_def)
qed

subsection \<open>C4: the emitted sub-chains\<close>

text \<open>
  Claim C4, as amended.  For the graph that \<open>build_graph\<close> gives, a least length of at
  least 1 and a greatest length within the recursion depth that the interpreter allows,
  the chain builder returns, without duplicates, exactly the walks of the graph whose
  number of tools lies between the two lengths: the sequences that start at a tool and
  follow edges.  The search keeps no set of visited tools, so a walk may visit a tool
  again.
\<close>

theorem sub_chains_are_walks:
  assumes "1 \<le> min_length" and "max_length \<le> int depth"
    and "g = build_graph tool_list detected"
  shows "\<exists>out. sub_chains depth g min_length max_length = Inr out \<and>
           set out = {p. walk g p \<and> min_length \<le> int (length p) \<and> int (length p) \<le> max_length} \<and>
           distinct out"
proof -
  have run: "sub_chains depth g min_length max_length =
          Inr (concat (map (\<lambda>len. chains_of_length g (nat (len - 1))) [min_length..max_length]))"
    by (rule sub_chains_steps [OF assms(1,2)])
  have "distinct (tools g)" "\<And>a. distinct (nexts g a)"
    using build_graph_distinct [of tool_list detected] assms(3) by simp_all
  from chains_of_length_walks [OF assms(1) this] run show ?thesis
    by simp
qed

theorem sub_chains_are_walks_witness:
  "(1::int) \<le> 2 \<and> (3::int) \<le> int 1000 \<and>
   (\<exists>out. sub_chains 1000 (build_graph [''search'', ''fetch''] [[''search'', ''fetch''], [''fetch'', ''search'']]) 2 3
            = Inr out \<and>
      set out = {p. walk (build_graph [''search'', ''fetch''] [[''search'', ''fetch''], [''fetch'', ''search'']]) p \<and>
                    2 \<le> int (length p) \<and> int (length p) \<le> 3} \<and>
      distinct out)"
  using sub_chains_are_walks [of 2 3 1000 _ "[''search'', ''fetch'']" "[[''search'', ''fetch''], [''fetch'', ''search'']]"]
  by simp

text \<open>On a graph without a cycle the walks are the simple paths.\<close>

lemma sub_chains_simple_paths_if_acyclic:
  assumes "1 \<le> min_length" and "max_length \<le> int depth"
    and "g = build_graph tool_list detected"
    and "\<And>p. walk g p \<Longrightarrow> distinct p"
  shows "\<exists>out. sub_chains depth g min_length max_length = Inr out \<and>
           set out = {p. simple_path g p \<and> min_length \<le> int (length p) \<and> int (length p) \<le> max_length} \<and>
           distinct out"
proof -
  have "sub_chains depth g min_length max_length =
          Inr (concat (map (\<lambda>len. chains_of_length g (nat (len - 1))) [min_length..max_length]))"
    by (rule sub_chains_steps [OF assms(1,2)])
  moreover have "{p. simple_path g p \<and> min_length \<le> int (length p) \<and> int (length p) \<le> max_length} =
        {p. walk g p \<and> min_length \<le> int (length p) \<and> int (length p) \<le> max_length}"
    using assms(4) by (auto simp: simple_path_def)
  moreover have "distinct (nexts g a)" for a
    using build_graph_distinct [of tool_list detected] assms(3) by simp
  moreover have "distinct (tools g)"
    using build_graph_distinct [of tool_list detected] assms(3) by simp
  ultimately show ?thesis
    using chains_of_length_walks [of min_length g max_length] assms(1) by simp
qed

text \<open>
  The claim as it was stated fails when two detected chains form a cycle: with the chains
  \<open>search, fetch\<close> and \<open>fetch, search\<close> the sub-chains of length 3 visit a tool twice.
\<close>

lemma two_tool_graph:
  "chains_of_length (build_graph [''search'', ''fetch''] [[''search'', ''fetch''], [''fetch'', ''search'']]) 2 =
     [[''search'', ''fetch'', ''search''], [''fetch'', ''search'', ''fetch'']]"
  by (simp add: chains_of_length_def build_graph_def dict_keys_def add_next_def numeral_2_eq_2)

theorem sub_chains_repeat_a_tool:
  "sub_chains 1000 (build_graph [''search'', ''fetch''] [[''search'', ''fetch''], [''fetch'', ''search'']]) 3 3 =
     Inr [[''search'', ''fetch'', ''search''], [''fetch'', ''search'', ''fetch'']] \<and>
   \<not> simple_path (build_graph [''search'', ''fetch''] [[''search'', ''fetch''], [''fetch'', ''search'']])
       [''search'', ''fetch'', ''search''] \<and>
   \<not> distinct [''search'', ''fetch'', ''search'']"
proof -
  have "sub_chains 1000 (build_graph [''search'', ''fetch''] [[''search'', ''fetch''], [''fetch'', ''search'']]) 3 3 =
     Inr (concat (map (\<lambda>len. chains_of_length
        (build_graph [''search'', ''fetch''] [[''search'', ''fetch''], [''fetch'', ''search'']]) (nat (len - 1))) [3..3]))"
    by (rule sub_chains_steps) simp_all
  moreover have "[3..3] = [3::int]"
    by (simp add: upto.simps)
  ultimately show ?thesis
    using two_tool_graph by (simp add: simple_path_def)
qed


section \<open>The agent runner\<close>

subsection \<open>C2: resuming after an interruption\<close>

lemma key_process_item [simp]: "extract_query (item_query_info (process_item agent it)) = extract_query (item_query_info it)"
  by (simp add: process_item_def)

lemma distinct_sub_mset:
  assumes "mset ps \<subseteq># mset ks" and "distinct ks"
  shows "distinct ps"
proof -
  have "count (mset ps) a = (if a \<in> set ps then 1 else 0)" for a
  proof (cases "a \<in> set ps")
    case True
    have "count (mset ps) a \<le> count (mset ks) a"
      by (rule mset_subset_eq_count [OF assms(1)])
    moreover have "count (mset ks) a \<le> 1"
      using assms(2) by (simp add: distinct_count_atmost_1)
    moreover have "0 < count (mset ps) a"
      using True by (simp only: count_greater_zero_iff set_mset_mset)
    ultimately have "count (mset ps) a = 1"
      by linarith
    with True show ?thesis by simp
  next
    case False
    then show ?thesis by (simp add: count_eq_zero_iff)
  qed
  then show ?thesis
    by (simp only: distinct_count_atmost_1) simp
qed

lemma mset_distinct_split:
  assumes "distinct ks" "distinct ps" "set ps \<subseteq> set ks"
  shows "mset ps + mset (filter (\<lambda>k. k \<notin> set ps) ks) = mset ks"
proof -
  have "mset ps = mset (filter (\<lambda>k. k \<in> set ps) ks)"
  proof (rule set_eq_iff_mset_eq_distinct [THEN iffD1])
    show "distinct ps" by (rule assms)
    show "distinct (filter (\<lambda>k. k \<in> set ps) ks)" using assms(1) by simp
    show "set ps = set (filter (\<lambda>k. k \<in> set ps) ks)" using assms(3) by auto
  qed
  then have "mset ps + mset (filter (\<lambda>k. k \<notin> set ps) ks) =
      filter_mset (\<lambda>k. k \<in> set ps) (mset ks) + filter_mset (\<lambda>k. \<not> k \<in> set ps) (mset ks)"
    by simp
  also have "\<dots> = mset ks"
    by (rule multiset_partition [symmetric])
  finally show ?thesis .
qed

lemmas runner_eval = asked_def asked_again_def augmented_def agent0_def written_def completes_def
  load_data_def process_item_def extract_query_def match_tags_def strip_def is_space_def is_word_def
  Let_def suffix_to_prefix

text \<open>
  C2, as the code has it.  Let the queries of the records of the input file be pairwise
  different (after \<open>extract_query\<close>), let a first run on an empty output file be interrupted
  when it had appended the lines \<open>partial\<close>, and let a second run with the same paths come
  to its end with the output file \<open>final\<close>.  Then \<open>final\<close> has as many lines as the input
  file has records, no two of its lines have the same query, its queries are those of the
  input file, and each line is a record of the input file with its trajectory set.
\<close>

theorem resume_neither_drops_nor_duplicates:
  assumes "distinct (map (\<lambda>it. extract_query (item_query_info it)) input_lines)"
    and "written agent1 [] input_lines partial"
    and "completes agent2 partial input_lines final"
  shows "length final = length input_lines \<and>
         distinct (map (\<lambda>it. extract_query (item_query_info it)) final) \<and>
         mset (map (\<lambda>it. extract_query (item_query_info it)) final) =
           mset (map (\<lambda>it. extract_query (item_query_info it)) input_lines) \<and>
         set final \<subseteq> process_item agent1 ` set input_lines \<union> process_item agent2 ` set input_lines"
proof -
  let ?k = "\<lambda>it. extract_query (item_query_info it)"
  from assms(2) have sub: "mset partial \<subseteq># mset (map (process_item agent1) input_lines)"
    by (simp add: written_def load_data_def)
  have ksub: "mset (map ?k partial) \<subseteq># mset (map ?k input_lines)"
    using image_mset_subseteq_mono [OF sub, of ?k] by (simp add: multiset.map_comp comp_def)
  have dp: "distinct (map ?k partial)"
    by (rule distinct_sub_mset [OF ksub assms(1)])
  have sp: "set (map ?k partial) \<subseteq> set (map ?k input_lines)"
    using set_mset_mono [OF ksub] by simp
  from assms(3) obtain added where
    final: "final = partial @ added" and
    added: "mset added = mset (map (process_item agent2) (load_data partial input_lines))"
    by (auto simp: completes_def)
  have "image_mset ?k (mset added) =
      image_mset ?k (mset (map (process_item agent2) (load_data partial input_lines)))"
    by (simp only: added)
  then have kadded: "mset (map ?k added) =
      mset (filter (\<lambda>k. k \<notin> set (map ?k partial)) (map ?k input_lines))"
    by (simp add: load_data_def filter_map multiset.map_comp comp_def)
  have all: "mset (map ?k final) = mset (map ?k input_lines)"
    using mset_distinct_split [OF assms(1) dp sp] kadded final by simp
  have len: "length final = length input_lines"
    using mset_eq_length [OF all] by simp
  have dist: "distinct (map ?k final)"
    using mset_eq_imp_distinct_iff [OF all] assms(1) by simp
  have "set partial \<subseteq> process_item agent1 ` set input_lines"
    using set_mset_mono [OF sub] by simp
  moreover have "set added \<subseteq> process_item agent2 ` set input_lines"
  proof -
    have "set_mset (mset added) = set_mset (mset (map (process_item agent2) (load_data partial input_lines)))"
      by (simp only: added)
    then show ?thesis by (auto simp: load_data_def)
  qed
  ultimately have "set final \<subseteq> process_item agent1 ` set input_lines \<union> process_item agent2 ` set input_lines"
    using final by auto
  with len dist all show ?thesis by simp
qed

theorem resume_neither_drops_nor_duplicates_witness:
  "distinct (map (\<lambda>it. extract_query (item_query_info it)) [asked, augmented]) \<and>
   written agent0 [] [asked, augmented] [process_item agent0 augmented] \<and>
   completes agent0 [process_item agent0 augmented] [asked, augmented]
     [process_item agent0 augmented, process_item agent0 asked] \<and>
   length [process_item agent0 augmented, process_item agent0 asked] = length [asked, augmented] \<and>
   map (\<lambda>it. extract_query (item_query_info it)) [process_item agent0 augmented, process_item agent0 asked] =
     [''Multiply 12 by 7.'', ''What is 12 x 7?'']"
  using resume_neither_drops_nor_duplicates [of "[asked, augmented]" agent0
      "[process_item agent0 augmented]" agent0 "[process_item agent0 augmented, process_item agent0 asked]"]
  by (simp add: runner_eval)

text \<open>
  Without the hypothesis the claim fails.  The second record of the input file asks the
  question of the first; the first run is interrupted after the line of the first record.
  The second run finds the query of the second record in the output file and skips it: it
  adds nothing, and the record of chain 2 is in no line of the final output file.
\<close>

theorem resume_drops_a_repeated_query:
  "written agent0 [] [asked, asked_again] [process_item agent0 asked] \<and>
   load_data [process_item agent0 asked] [asked, asked_again] = [] \<and>
   (\<forall>final. completes agent0 [process_item agent0 asked] [asked, asked_again] final =
      (final = [process_item agent0 asked])) \<and>
   length [process_item agent0 asked] < length [asked, asked_again] \<and>
   carried asked_again \<notin> set (map carried [process_item agent0 asked])"
  by (simp add: runner_eval)

section \<open>The reward scorer\<close>

subsection \<open>C7: the tool-call success score\<close>

lemma tool_msg_list_of_messages:
  "map (\<lambda>(tool_call_id, name, msg). msg) (tool_msg_list_of messages) =
   filter (\<lambda>msg. role_of msg = Some ''tool'' \<and> truthy (tool_call_id_of msg)) messages"
proof -
  have "map (\<lambda>(tool_call_id, name, msg). msg)
          (concat (map (\<lambda>msg.
             if role_of msg = Some ''tool''
             then (case tool_call_id_of msg of
                     None \<Rightarrow> []
                   | Some tool_call_id \<Rightarrow>
                       if tool_call_id \<noteq> [] then [(tool_call_id, m tool_call_id, msg)] else [])
             else []) ms)) =
        filter (\<lambda>msg. role_of msg = Some ''tool'' \<and> truthy (tool_call_id_of msg)) ms"
    for m :: "string \<Rightarrow> string option" and ms :: "'a message list"
    by (induction ms) (simp_all add: truthy_def split: option.splits)
  then show ?thesis
    by (simp add: tool_msg_list_of_def Let_def)
qed

lemma length_filter_partition: "length (filter (\<lambda>b. b) bs) + length (filter (\<lambda>b. \<not> b) bs) = length bs"
  by (induction bs) auto

text \<open>
  C7, as the code has it.  For a trajectory of at least two messages whose second message
  has a content, the tool messages that count are those with a non-empty \<open>tool_call_id\<close>,
  which are all the tool messages of a trajectory in which every tool message carries one.
  Each of them is judged once, so the judged successes and failures add up to their
  number.  If there is none, the result is the safe score 1 with \<open>is_safe_score\<close>;
  otherwise the score is one for every success plus one half for every failure, divided
  by their number.
\<close>

theorem get_tool_call_score_formula:
  fixes messages :: "'s message list"
  assumes "2 \<le> length messages" and "content_of (messages ! 1) \<noteq> None"
  shows "let tool_messages = filter (\<lambda>msg. role_of msg = Some ''tool'' \<and> truthy (tool_call_id_of msg)) messages;
             statuses = map (\<lambda>(i, msg). get_LLM_tool_status judge i (get_content msg))
                            (zip [0..<length tool_messages] tool_messages);
             success = length (filter (\<lambda>tool_status. tool_status) statuses);
             fail = length (filter (\<lambda>tool_status. \<not> tool_status) statuses)
         in success + fail = length tool_messages \<and>
            get_tool_call_score judge messages =
              Inr (if tool_messages = []
                   then \<lparr>score = 1, is_safe_score = True, success_times = None, fail_times = None\<rparr>
                   else \<lparr>score = (1 * of_nat success + (1 / 2) * of_nat fail) / of_nat (length tool_messages),
                         is_safe_score = False, success_times = Some success, fail_times = Some fail\<rparr>)"
proof -
  let ?L = "tool_msg_list_of messages"
  let ?T = "filter (\<lambda>msg. role_of msg = Some ''tool'' \<and> truthy (tool_call_id_of msg)) messages"
  let ?S = "map (\<lambda>(i, msg). get_LLM_tool_status judge i (get_content msg)) (zip [0..<length ?T] ?T)"
  have T: "?T = map (\<lambda>(tool_call_id, name, msg). msg) ?L"
    by (rule tool_msg_list_of_messages [symmetric])
  have st: "map (\<lambda>(i, (tool_call_id, name, msg)). get_LLM_tool_status judge i (get_content msg))
              (zip [0..<length ?L] ?L) = ?S"
    unfolding T by (simp add: zip_map2 case_prod_unfold)
  have len: "length ?S = length ?T"
    by simp
  have total: "length (filter (\<lambda>tool_status. tool_status) ?S) + length (filter (\<lambda>tool_status. \<not> tool_status) ?S) = length ?T"
    using length_filter_partition [of ?S] len by simp
  obtain query where q: "content_of (messages ! 1) = Some query"
    using assms(2) by auto
  have run: "get_tool_call_score judge messages =
      Inr (if ?T = []
           then \<lparr>score = 1, is_safe_score = True, success_times = None, fail_times = None\<rparr>
           else \<lparr>score = (1 * of_nat (length (filter (\<lambda>tool_status. tool_status) ?S)) +
                           (1 / 2) * of_nat (length (filter (\<lambda>tool_status. \<not> tool_status) ?S))) / of_nat (length ?T),
                 is_safe_score = False,
                 success_times = Some (length (filter (\<lambda>tool_status. tool_status) ?S)),
                 fail_times = Some (length (filter (\<lambda>tool_status. \<not> tool_status) ?S))\<rparr>)"
    unfolding get_tool_call_score_def Let_def st total
    using assms(1) q by (simp add: SAFE_TOOL_CALL_SCORE_def)
  show ?thesis
    unfolding Let_def using total run by simp
qed

lemmas reward_eval = system_message_def user_message_def calling_message_def failed_multiply_def
  failed_add_def anonymous_tool_message_def final_message_def error_message_def all_failures_def
  llm_rejects_def get_tool_call_score_def tool_msg_list_of_def tool_call_map_of_def
  get_LLM_tool_status_def get_content_def truthy_def SAFE_TOOL_CALL_SCORE_def
  TOOL_CALL_TOOL_STATUS_def Let_def

theorem get_tool_call_score_formula_witness:
  "2 \<le> length all_failures \<and> content_of (all_failures ! 1) \<noteq> None \<and>
   get_tool_call_score llm_rejects all_failures =
     Inr \<lparr>score = 1 / 2, is_safe_score = False, success_times = Some 0, fail_times = Some 2\<rparr>"
  using get_tool_call_score_formula [of all_failures llm_rejects]
  by (simp add: reward_eval)

text \<open>
  The claim as it is written fails on two trajectories.  The trajectory of the single
  error message of the agent runner has no tool message, and the scorer raises IndexError
  at \<open>trajectory[1]\<close> where the claim has it return the safe score.  A tool message
  without \<open>tool_call_id\<close> is not judged: the trajectory has one tool message, every
  judgement would be a failure, and the scorer returns the safe score.
\<close>

theorem get_tool_call_score_raises_or_skips:
  "filter (\<lambda>msg. role_of msg = Some ''tool'') [error_message] = [] \<and>
   get_tool_call_score llm_rejects [error_message] = Inl IndexError \<and>
   filter (\<lambda>msg. role_of msg = Some ''tool'')
     [system_message, user_message, calling_message, anonymous_tool_message, final_message] =
     [anonymous_tool_message] \<and>
   get_tool_call_score llm_rejects
     [system_message, user_message, calling_message, anonymous_tool_message, final_message] =
     Inr \<lparr>score = 1, is_safe_score = True, success_times = None, fail_times = None\<rparr>"
  by (simp add: reward_eval)

subsection \<open>C8: a language mismatch scores zero without a call of the model\<close>

lemma ratio_exceeds:
  fixes c total p q :: nat
  assumes "0 < total" and "0 < q"
  shows "(of_nat p :: rat) / of_nat q < of_nat c / of_nat total \<longleftrightarrow> p * total < q * c"
proof -
  have t: "(0::rat) < of_nat total" and q: "(0::rat) < of_nat q"
    using assms by simp_all
  have "(of_nat p :: rat) / of_nat q < of_nat c / of_nat total \<longleftrightarrow>
        (of_nat p :: rat) / of_nat q * of_nat total < of_nat c"
    by (rule pos_less_divide_eq [OF t])
  also have "\<dots> \<longleftrightarrow> (of_nat p :: rat) * of_nat total / of_nat q < of_nat c"
    by simp
  also have "\<dots> \<longleftrightarrow> (of_nat p :: rat) * of_nat total < of_nat c * of_nat q"
    by (rule pos_divide_less_eq [OF q])
  also have "\<dots> \<longleftrightarrow> (of_nat (p * total) :: rat) < of_nat (q * c)"
    by (simp add: mult.commute)
  also have "\<dots> \<longleftrightarrow> p * total < q * c"
    by (rule of_nat_less_iff)
  finally show ?thesis .
qed

lemma detect_language_Zh:
  "detect_language isalpha (Some t) = Zh \<longleftrightarrow>
     6 * (length (filter cjk t) + length (filter (\<lambda>char. \<not> cjk char \<and> isalpha char) t))
       < 10 * length (filter cjk t)"
proof -
  let ?c = "length (filter cjk t)"
  let ?e = "length (filter (\<lambda>char. \<not> cjk char \<and> isalpha char) t)"
  show ?thesis
  proof (cases "?c + ?e = 0")
    case True
    then show ?thesis
      by (simp add: detect_language_def Let_def)
  next
    case False
    then have pos: "0 < ?c + ?e" by simp
    then have ne: "t \<noteq> []" by auto
    have "(6 / 10 :: rat) = of_nat 6 / of_nat 10" by simp
    then have "(6 / 10 :: rat) < of_nat ?c / of_nat (?c + ?e) \<longleftrightarrow> 6 * (?c + ?e) < 10 * ?c"
      using ratio_exceeds [OF pos, of 10 6 ?c] by simp
    then show ?thesis
      using False ne by (simp add: detect_language_def Let_def)
  qed
qed

lemma detect_language_En:
  "detect_language isalpha (Some t) = En \<longleftrightarrow>
     7 * (length (filter cjk t) + length (filter (\<lambda>char. \<not> cjk char \<and> isalpha char) t))
       < 10 * length (filter (\<lambda>char. \<not> cjk char \<and> isalpha char) t)"
proof -
  let ?c = "length (filter cjk t)"
  let ?e = "length (filter (\<lambda>char. \<not> cjk char \<and> isalpha char) t)"
  show ?thesis
  proof (cases "?c + ?e = 0")
    case True
    then show ?thesis
      by (simp add: detect_language_def Let_def)
  next
    case False
    then have pos: "0 < ?c + ?e" by simp
    then have ne: "t \<noteq> []" by auto
    have "(6 / 10 :: rat) = of_nat 6 / of_nat 10" and "(7 / 10 :: rat) = of_nat 7 / of_nat 10"
      by simp_all
    then have "(6 / 10 :: rat) < of_nat ?c / of_nat (?c + ?e) \<longleftrightarrow> 6 * (?c + ?e) < 10 * ?c"
      and "(7 / 10 :: rat) < of_nat ?e / of_nat (?c + ?e) \<longleftrightarrow> 7 * (?c + ?e) < 10 * ?e"
      using ratio_exceeds [OF pos, of 10 6 ?c] ratio_exceeds [OF pos, of 10 7 ?e] by simp_all
    then show ?thesis
      using False ne by (auto simp: detect_language_def Let_def)
  qed
qed

text \<open>
  C8: when the query and the answer of a trajectory both have a detected language (of
  \<open>Zh\<close>, \<open>En\<close> and \<open>Mixed\<close>) and the two differ, the correlation judge returns the score 0
  and has sent no prompt to the model.  By the two lemmas above the detector says \<open>Zh\<close>
  exactly when more than 6/10 of the counted letters are ideographs, and \<open>En\<close> exactly
  when more than 7/10 of them are other letters.
\<close>

theorem language_mismatch_scores_zero:
  assumes "2 \<le> length messages"
    and "content_of (messages ! 1) = Some query"
    and "content_of (last messages) = Some final_answer"
    and "detect_language isalpha query \<noteq> Unknown"
    and "detect_language isalpha final_answer \<noteq> Unknown"
    and "detect_language isalpha query \<noteq> detect_language isalpha final_answer"
  shows "evaluate_final_answer_correlation_final_answer isalpha get_model_ans parse messages =
           Inr \<lparr>correlation_score = 0, language_inconsistency = True, prompts_sent = []\<rparr>"
  using assms
  by (simp add: evaluate_final_answer_correlation_final_answer_def
      check_language_consistency_final_answer_def Let_def)

lemmas correlation_eval = mismatch_def english_query_def chinese_answer_def isalpha0_def cjk_def
  detect_language_def model_agrees_def parse_one_def Let_def

theorem language_mismatch_scores_zero_witness:
  "2 \<le> length mismatch \<and>
   content_of (mismatch ! 1) = Some (Some english_query) \<and>
   content_of (last mismatch) = Some (Some chinese_answer) \<and>
   detect_language isalpha0 (Some english_query) = En \<and>
   detect_language isalpha0 (Some chinese_answer) = Zh \<and>
   evaluate_final_answer_correlation_final_answer isalpha0 model_agrees parse_one mismatch =
     Inr \<lparr>correlation_score = 0, language_inconsistency = True, prompts_sent = []\<rparr>"
  using language_mismatch_scores_zero [of mismatch "Some english_query" "Some chinese_answer"
      isalpha0 model_agrees parse_one]
  by (simp add: correlation_eval)

end
